theory Spec2Isabelle
  imports Main
begin

section \<open>The hsnips compiler (src/src/parser.ts)\<close>

text \<open>
  A shallow embedding of \<^verbatim>\<open>parser.ts\<close>: the header grammar, the body compiler
  \<^verbatim>\<open>parseSnippet\<close>, the file compiler \<^verbatim>\<open>parse\<close> and its execution adapter.
  JavaScript strings are modelled as \<^typ>\<open>string\<close>; a character stands for a code
  unit below 256.
\<close>

subsection \<open>String primitives of the host\<close>

definition backtick :: char where "backtick = CHR 0x60"
definition dquote :: char where "dquote = CHR 0x22"
definition backslash :: char where "backslash = CHR 0x5C"
definition LF :: char where "LF = CHR 0x0A"
definition CR :: char where "CR = CHR 0x0D"

text \<open>\<^verbatim>\<open>s.startsWith(p)\<close>, \<^verbatim>\<open>s.endsWith(p)\<close>, \<^verbatim>\<open>s.includes(p)\<close>.\<close>

definition startsWith :: "string \<Rightarrow> string \<Rightarrow> bool" where
  "startsWith s p = (take (length p) s = p)"

definition endsWith :: "string \<Rightarrow> string \<Rightarrow> bool" where
  "endsWith s p = (length p \<le> length s \<and> drop (length s - length p) s = p)"

fun includes_str :: "string \<Rightarrow> string \<Rightarrow> bool" where
  "includes_str [] p = (p = [])"
| "includes_str (c # cs) p = (startsWith (c # cs) p \<or> includes_str cs p)"

text \<open>
  White space as \<^verbatim>\<open>trim()\<close> and the regular-expression class \<^verbatim>\<open>\s\<close> see it
  (WhiteSpace and LineTerminator), for code units below 256: TAB, LF, VT, FF, CR, SP, NBSP.
\<close>

definition isWhiteSpace :: "char \<Rightarrow> bool" where
  "isWhiteSpace c = (c \<in> set [CHR 0x09, CHR 0x0A, CHR 0x0B, CHR 0x0C, CHR 0x0D, CHR 0x20, CHR 0xA0])"

definition trim :: "string \<Rightarrow> string" where
  "trim s = rev (dropWhile isWhiteSpace (rev (dropWhile isWhiteSpace s)))"

text \<open>\<^verbatim>\<open>xs.join(sep)\<close>.\<close>

fun join :: "string \<Rightarrow> string list \<Rightarrow> string" where
  "join sep [] = []"
| "join sep [x] = x"
| "join sep (x # y # ys) = x @ sep @ join sep (y # ys)"

text \<open>\<^verbatim>\<open>content.split(/\r?\n/)\<close>: a CR is part of the separator only right before an LF.\<close>

fun split_lines :: "string \<Rightarrow> string list" where
  "split_lines [] = [[]]"
| "split_lines [c] = (if c = LF then [[], []] else [[c]])"
| "split_lines (c # d # cs) =
     (if c = CR \<and> d = LF then [] # split_lines cs
      else if c = LF then [] # split_lines (d # cs)
      else (case split_lines (d # cs) of [] \<Rightarrow> [[c]] | l # ls \<Rightarrow> (c # l) # ls))"

subsection \<open>The delimiter\<close>

text \<open>\<^verbatim>\<open>const CODE_DELIMITER = '``'; const CODE_DELIMITER_REGEX = /``(?!`)/;\<close>\<close>

definition CODE_DELIMITER :: string where
  "CODE_DELIMITER = [backtick, backtick]"

text \<open>
  Whether \<^verbatim>\<open>CODE_DELIMITER_REGEX\<close> matches at the start of \<open>s\<close>: two backticks, and
  the negative lookahead: the next character, if any, is not a backtick.
\<close>

fun CODE_DELIMITER_REGEX_at :: "string \<Rightarrow> bool" where
  "CODE_DELIMITER_REGEX_at (a # b # r) =
     (a = backtick \<and> b = backtick \<and> (case r of [] \<Rightarrow> True | c # _ \<Rightarrow> c \<noteq> backtick))"
| "CODE_DELIMITER_REGEX_at _ = False"

text \<open>
  \<^verbatim>\<open>line.split(CODE_DELIMITER_REGEX)\<close>, as the destructuring
  \<^verbatim>\<open>let [text, ...rest] = ...\<close> reads it: the first piece and the list of the others
  (\<^verbatim>\<open>split\<close> never returns an empty array). A match is two characters long, and the
  scan goes on right after it.
\<close>

fun split_CODE_DELIMITER_REGEX :: "string \<Rightarrow> string \<times> string list" where
  "split_CODE_DELIMITER_REGEX [] = ([], [])"
| "split_CODE_DELIMITER_REGEX (c # cs) =
     (if CODE_DELIMITER_REGEX_at (c # cs)
      then ([], (case split_CODE_DELIMITER_REGEX (tl cs) of (p, ps) \<Rightarrow> p # ps))
      else (case split_CODE_DELIMITER_REGEX cs of (p, ps) \<Rightarrow> (c # p, ps)))"

subsection \<open>Header grammar\<close>

text \<open>
  \<^verbatim>\<open>const HEADER_REGEXP = /^snippet ?(?:`([^`]+)`|(\S+))?(?: "([^"]+)")?(?: ([AMiwb]*))?/;\<close>

  The result of \<^verbatim>\<open>HEADER_REGEXP.exec\<close>: the four capture groups, \<open>None\<close> for a group
  that took no part in the match.
\<close>

record header_match =
  group1 :: "string option"
  group2 :: "string option"
  group3 :: "string option"
  group4 :: "string option"

text \<open>
  \<^verbatim>\<open>(?:`([^`]+)`|(\S+))?\<close> at the start of \<open>r\<close>: the two groups and what is left of
  \<open>r\<close>. The first alternative needs a closing backtick after at least one other
  character; the second takes the longest run of non-blank characters.
\<close>

definition trigger_group :: "string \<Rightarrow> string option \<times> string option \<times> string" where
  "trigger_group r =
     (let p = takeWhile (\<lambda>c. c \<noteq> backtick) (tl r);
          q = dropWhile (\<lambda>c. c \<noteq> backtick) (tl r);
          t = takeWhile (\<lambda>c. \<not> isWhiteSpace c) r
      in if r \<noteq> [] \<and> hd r = backtick \<and> p \<noteq> [] \<and> q \<noteq> [] then (Some p, None, tl q)
         else if t \<noteq> [] then (None, Some t, dropWhile (\<lambda>c. \<not> isWhiteSpace c) r)
         else (None, None, r))"

text \<open>\<^verbatim>\<open>(?: "([^"]+)")?\<close> at the start of \<open>r\<close>.\<close>

definition description_group :: "string \<Rightarrow> string option \<times> string" where
  "description_group r =
     (let d = takeWhile (\<lambda>c. c \<noteq> dquote) (drop 2 r);
          e = dropWhile (\<lambda>c. c \<noteq> dquote) (drop 2 r)
      in if take 2 r = [CHR '' '', dquote] \<and> d \<noteq> [] \<and> e \<noteq> [] then (Some d, tl e)
         else (None, r))"

text \<open>\<^verbatim>\<open>(?: ([AMiwb]*))?\<close> at the start of \<open>r\<close>.\<close>

definition flags_group :: "string \<Rightarrow> string option" where
  "flags_group r =
     (if take 1 r = '' '' then Some (takeWhile (\<lambda>c. c \<in> set ''AMiwb'') (tl r)) else None)"

text \<open>
  Every part after the keyword is optional and nothing follows the last one, so the
  matcher never has to give back what a part has taken: each part takes its first
  (greedy) choice.
\<close>

definition HEADER_REGEXP_exec :: "string \<Rightarrow> header_match option" where
  "HEADER_REGEXP_exec s =
     (if \<not> startsWith s ''snippet'' then None
      else let r0 = drop 7 s;
               r1 = (if take 1 r0 = '' '' then tl r0 else r0);
               (g1, g2, r2) = trigger_group r1;
               (g3, r3) = description_group r2
           in Some \<lparr>group1 = g1, group2 = g2, group3 = g3, group4 = flags_group r3\<rparr>)"

text \<open>
  The trigger of a header: a literal string, a \<^verbatim>\<open>RegExp\<close> (its pattern and flags as
  given to the constructor), or \<^verbatim>\<open>undefined\<close> when neither trigger group matched.
\<close>

datatype trigger = Literal string | RegExp string string | Undefined

text \<open>
  The priority of a snippet, a number of the host: an integer, or another number (a
  fraction, a value of \<open>2 ^ 53\<close> and more, an infinity) under a name. The compiler
  itself only builds integers; other numbers come from the host.
\<close>

datatype priority = Priority int | OtherNumber string

text \<open>
  The header of a snippet. The interface \<^verbatim>\<open>IHSnippetHeader\<close> is declared in
  \<^verbatim>\<open>hsnippet.ts\<close>, which is not among the sources; the fields are those the code
  writes: three in \<^verbatim>\<open>parseSnippetHeader\<close>, and \<^verbatim>\<open>priority\<close> later, in \<^verbatim>\<open>parse\<close>.
\<close>

record snippetHeader =
  trigger :: trigger
  description :: string
  flags :: string
  priority :: "priority option"

text \<open>
  What the code raises: \<^verbatim>\<open>Error('Invalid snippet header')\<close>, the \<^verbatim>\<open>SyntaxError\<close> of
  \<^verbatim>\<open>new RegExp\<close> on a pattern the host rejects, \<^verbatim>\<open>Error(`Failed to parse snippet code: ...`)\<close>
  with its message, and the \<^verbatim>\<open>TypeError\<close> of reading a property of a missing generator.
\<close>

datatype error =
    InvalidSnippetHeader
  | RegExpSyntaxError string
  | FailedToParseSnippetCode string
  | MissingGenerator nat

text \<open>
  \<^verbatim>\<open>parseSnippetHeader\<close>. Whether the host's \<^verbatim>\<open>RegExp\<close> constructor accepts a pattern
  is the parameter \<open>regexp_ok\<close>.
\<close>

definition parseSnippetHeader :: "(string \<Rightarrow> bool) \<Rightarrow> string \<Rightarrow> error + snippetHeader" where
  "parseSnippetHeader regexp_ok header =
     (case HEADER_REGEXP_exec header of
        None \<Rightarrow> Inl InvalidSnippetHeader
      | Some m \<Rightarrow>
          (let d = (case group3 m of Some x \<Rightarrow> x | None \<Rightarrow> []);
               f = (case group4 m of Some x \<Rightarrow> x | None \<Rightarrow> [])
           in case group1 m of
                Some p \<Rightarrow>
                  (if p \<noteq> [] then
                     (let src = (if \<not> endsWith p ''$'' then p @ ''$'' else p)
                      in if regexp_ok src
                         then Inr \<lparr>trigger = RegExp src ''m'', description = d, flags = f, priority = None\<rparr>
                         else Inl (RegExpSyntaxError src))
                   else Inr \<lparr>trigger = (case group2 m of Some t \<Rightarrow> Literal t | None \<Rightarrow> Undefined),
                             description = d, flags = f, priority = None\<rparr>)
              | None \<Rightarrow>
                  Inr \<lparr>trigger = (case group2 m of Some t \<Rightarrow> Literal t | None \<Rightarrow> Undefined),
                       description = d, flags = f, priority = None\<rparr>))"

subsection \<open>Body compiler\<close>

record snippetInfo =
  body :: string
  contextFilter :: "string option"
  header :: snippetHeader

text \<open>
  \<^verbatim>\<open>string.replace(/\\/g, '\\\\').replace(/"/g, '\\"')\<close>: every backslash is doubled,
  then every double quote gets a backslash.
\<close>

definition escapeString :: "string \<Rightarrow> string" where
  "escapeString s =
     concat (map (\<lambda>c. if c = dquote then [backslash, dquote] else [c])
       (concat (map (\<lambda>c. if c = backslash then [backslash, backslash] else [c]) s)))"

text \<open>The statements \<^verbatim>\<open>parseSnippet\<close> emits, as the text the template literals produce.\<close>

definition FUNCTION_HEAD :: string where
  "FUNCTION_HEAD = ''(t, m, w, path, snip) => {''"

definition LET_RV :: string where
  \<open>LET_RV = ''let rv = "";''\<close>

definition LET_RESULT :: string where
  "LET_RESULT = ''let _result = [];''"

definition LET_BLOCKRESULTS :: string where
  "LET_BLOCKRESULTS = ''let _blockResults = [];''"

definition PUSH_BLOCK :: string where
  "PUSH_BLOCK = ''_result.push({block: _blockResults.length});''"

definition PUSH_BLOCKRESULT :: string where
  "PUSH_BLOCKRESULT = ''_blockResults.push(String(rv));''"

definition push_text :: "string \<Rightarrow> string" where
  \<open>push_text s = ''_result.push("'' @ escapeString s @ ''");''\<close>

definition PUSH_NEWLINE :: string where
  \<open>PUSH_NEWLINE = ''_result.push("'' @ [backslash] @ ''n");''\<close>

definition RESET_RV :: string where
  \<open>RESET_RV = ''rv = "";''\<close>

definition RETURN :: string where
  "RETURN = ''return [_result, _blockResults];''"

lemma join_split_CODE_DELIMITER_REGEX:
  "split_CODE_DELIMITER_REGEX s = (p, ps) \<Longrightarrow> join CODE_DELIMITER (p # ps) = s"
proof (induction s arbitrary: p ps rule: split_CODE_DELIMITER_REGEX.induct)
  case 1
  then show ?case by simp
next
  case (2 c cs)
  show ?case
  proof (cases "CODE_DELIMITER_REGEX_at (c # cs)")
    case True
    then obtain r where cs: "cs = backtick # r" and c: "c = backtick"
      by (cases cs) auto
    obtain q qs where q: "split_CODE_DELIMITER_REGEX (tl cs) = (q, qs)"
      by (cases "split_CODE_DELIMITER_REGEX (tl cs)")
    from "2.IH"(1) [OF True q] have "join CODE_DELIMITER (q # qs) = tl cs" .
    moreover from "2.prems" True q have "p = []" "ps = q # qs" by auto
    ultimately show ?thesis using cs c by (simp add: CODE_DELIMITER_def)
  next
    case False
    obtain q qs where q: "split_CODE_DELIMITER_REGEX cs = (q, qs)"
      by (cases "split_CODE_DELIMITER_REGEX cs")
    from "2.IH"(2) [OF False q] have j: "join CODE_DELIMITER (q # qs) = cs" .
    from "2.prems" False q have "p = c # q" "ps = qs" by auto
    with j show ?thesis by (cases qs) auto
  qed
qed

lemma length_rest_split_CODE_DELIMITER_REGEX:
  assumes "split_CODE_DELIMITER_REGEX s = (p, ps)" and "s \<noteq> []"
  shows "length (join CODE_DELIMITER ps) < length s"
proof (cases ps)
  case Nil
  with assms show ?thesis by simp
next
  case (Cons q qs)
  from join_split_CODE_DELIMITER_REGEX [OF assms(1)] Cons
  have "s = p @ CODE_DELIMITER @ join CODE_DELIMITER ps" by simp
  then have "length s = length p + 2 + length (join CODE_DELIMITER ps)"
    by (simp add: CODE_DELIMITER_def)
  then show ?thesis by simp
qed

lemma unshift_shorter:
  "includes_str line CODE_DELIMITER \<Longrightarrow> (x, y) = split_CODE_DELIMITER_REGEX line \<Longrightarrow>
   length (join CODE_DELIMITER y) < length line"
  using length_rest_split_CODE_DELIMITER_REGEX [of line x y]
  by (cases line) (auto simp: CODE_DELIMITER_def)

text \<open>
  The loop of \<^verbatim>\<open>parseSnippet\<close> over the shared line stream: the lines still to read,
  the script so far and the mode \<^verbatim>\<open>isCode\<close>; it returns the script and the lines left
  to the caller. \<^verbatim>\<open>lines.shift()\<close> takes the first line, \<^verbatim>\<open>lines.unshift\<close> puts the
  rest of a split line back in front.
\<close>

function parseSnippet_loop :: "string list \<Rightarrow> string list \<Rightarrow> bool \<Rightarrow> string list \<times> string list" where
  "parseSnippet_loop [] script isCode = (script, [])"
| "parseSnippet_loop (line # lines) script isCode =
     (if isCode then
        (if \<not> includes_str line CODE_DELIMITER then
           parseSnippet_loop lines (script @ [trim line]) True
         else
           (case split_CODE_DELIMITER_REGEX line of (code, rest) \<Rightarrow>
              parseSnippet_loop (join CODE_DELIMITER rest # lines)
                (script @ [trim code, PUSH_BLOCK, PUSH_BLOCKRESULT]) False))
      else
        (if startsWith line ''endsnippet'' then (script, lines)
         else if \<not> includes_str line CODE_DELIMITER then
           parseSnippet_loop lines (script @ [push_text line, PUSH_NEWLINE]) False
         else
           (case split_CODE_DELIMITER_REGEX line of (text, rest) \<Rightarrow>
              parseSnippet_loop (join CODE_DELIMITER rest # lines)
                (script @ [push_text text, RESET_RV]) True)))"
  by pat_completeness auto
termination
proof (relation "measure (\<lambda>(lines, script, isCode). sum_list (map (\<lambda>l. Suc (length l)) lines))")
qed (auto dest: unshift_shorter)

text \<open>
  \<^verbatim>\<open>parseSnippet\<close>: the header, the loop, the unconditional \<^verbatim>\<open>script.pop()\<close>
  (\<^verbatim>\<open>// Remove extra newline at the end.\<close>), the return statement and the closing brace.
  The second component is the line stream as the caller finds it afterwards.
\<close>

definition parseSnippet ::
  "(string \<Rightarrow> bool) \<Rightarrow> string \<Rightarrow> string list \<Rightarrow> error + (snippetInfo \<times> string list)" where
  "parseSnippet regexp_ok headerLine lines =
     (case parseSnippetHeader regexp_ok headerLine of
        Inl e \<Rightarrow> Inl e
      | Inr h \<Rightarrow>
          (case parseSnippet_loop lines [FUNCTION_HEAD, LET_RV, LET_RESULT, LET_BLOCKRESULTS] False of
             (script, lines') \<Rightarrow>
               Inr (\<lparr>body = join [LF] (butlast script @ [RETURN, ''}'']),
                      contextFilter = None, header = h\<rparr>, lines')))"

lemma length_parseSnippet_loop:
  "length (snd (parseSnippet_loop lines script isCode)) \<le> length lines"
proof (induction lines script isCode rule: parseSnippet_loop.induct)
  case (1 script isCode)
  show ?case by simp
next
  case (2 line lines script isCode)
  obtain p ps where sp: "split_CODE_DELIMITER_REGEX line = (p, ps)"
    by (cases "split_CODE_DELIMITER_REGEX line")
  show ?case
  proof (cases isCode)
    case True
    show ?thesis
    proof (cases "includes_str line CODE_DELIMITER")
      case False
      with True "2.IH"(1) show ?thesis by simp
    next
      case inc: True
      from "2.IH"(2) [OF True _ sp [symmetric]] inc True sp show ?thesis by simp
    qed
  next
    case False
    show ?thesis
    proof (cases "startsWith line ''endsnippet''")
      case True
      with False show ?thesis by simp
    next
      case ne: False
      show ?thesis
      proof (cases "includes_str line CODE_DELIMITER")
        case False
        with \<open>\<not> isCode\<close> ne "2.IH"(3) show ?thesis by simp
      next
        case inc: True
        from "2.IH"(4) [OF False ne _ sp [symmetric]] inc False ne sp show ?thesis by simp
      qed
    qed
  qed
qed

lemma length_parseSnippet:
  "parseSnippet regexp_ok headerLine lines = Inr (info, lines') \<Longrightarrow> length lines' \<le> length lines"
  using length_parseSnippet_loop [of lines "[FUNCTION_HEAD, LET_RV, LET_RESULT, LET_BLOCKRESULTS]" False]
  by (auto simp: parseSnippet_def split: sum.splits prod.splits)

subsection \<open>File compiler\<close>

definition isDigit :: "char \<Rightarrow> bool" where
  "isDigit c = (c \<in> set ''0123456789'')"

definition isHexDigit :: "char \<Rightarrow> bool" where
  "isHexDigit c = (c \<in> set ''0123456789abcdefABCDEF'')"

definition digit_value :: "char \<Rightarrow> int" where
  "digit_value c =
     (if c \<in> set ''abcdef'' then of_char c - 87
      else if c \<in> set ''ABCDEF'' then of_char c - 55
      else of_char c - 48)"

definition radix_value :: "int \<Rightarrow> string \<Rightarrow> int" where
  "radix_value b ds = foldl (\<lambda>n c. b * n + digit_value c) 0 ds"

definition decimal_value :: "string \<Rightarrow> int" where
  "decimal_value ds = radix_value 10 ds"

text \<open>
  \<^verbatim>\<open>Number(s)\<close> for a trimmed text \<open>s\<close>, by the grammar of numeric strings: not a
  number, a number whose value is an integer below \<open>2 ^ 53 = 9007199254740992\<close> in
  size (every such integer is a number of the host, exactly), or another number,
  whose rounding to a number of the host is not computed here.
\<close>

datatype number = NaN | Exact int | Inexact

text \<open>
  A binary, octal or hexadecimal integer: \<^verbatim>\<open>0b\<close>, \<^verbatim>\<open>0o\<close> or \<^verbatim>\<open>0x\<close> (in either
  case) and at least one digit; no sign.
\<close>

definition NonDecimalIntegerLiteral :: "string \<Rightarrow> int option" where
  "NonDecimalIntegerLiteral s =
     (let p = take 2 s; ds = drop 2 s in
      if ds = [] then None
      else if (p = ''0x'' \<or> p = ''0X'') \<and> list_all isHexDigit ds then Some (radix_value 16 ds)
      else if (p = ''0o'' \<or> p = ''0O'') \<and> list_all (\<lambda>c. c \<in> set ''01234567'') ds
        then Some (radix_value 8 ds)
      else if (p = ''0b'' \<or> p = ''0B'') \<and> list_all (\<lambda>c. c \<in> set ''01'') ds
        then Some (radix_value 2 ds)
      else None)"

text \<open>
  An unsigned decimal: digits, with an optional fraction after a point (digits before
  the point, after it, or both) and an optional exponent (\<^verbatim>\<open>e\<close> or \<^verbatim>\<open>E\<close>, an optional
  sign, digits). The result \<open>(n, k)\<close> stands for the value \<open>n * 10 ^ k\<close>.
\<close>

definition StrUnsignedDecimalLiteral :: "string \<Rightarrow> (int \<times> int) option" where
  "StrUnsignedDecimalLiteral u =
     (let m = takeWhile (\<lambda>c. c \<notin> set ''eE'') u;
          x = dropWhile (\<lambda>c. c \<notin> set ''eE'') u;
          ip = takeWhile (\<lambda>c. c \<noteq> CHR ''.'') m;
          fp = tl (dropWhile (\<lambda>c. c \<noteq> CHR ''.'') m);
          xs = tl x;
          xd = (if take 1 xs = ''+'' \<or> take 1 xs = ''-'' then tl xs else xs)
      in if list_all isDigit ip \<and> list_all isDigit fp \<and> (ip \<noteq> [] \<or> fp \<noteq> []) \<and>
            (x = [] \<or> (xd \<noteq> [] \<and> list_all isDigit xd))
         then Some (decimal_value (ip @ fp),
                (if x = [] then 0 else if take 1 xs = ''-'' then - decimal_value xd else decimal_value xd)
                  - int (length fp))
         else None)"

definition StringToNumber :: "string \<Rightarrow> number" where
  "StringToNumber s =
     (let u = (if take 1 s = ''+'' \<or> take 1 s = ''-'' then tl s else s) in
      if s = [] then Exact 0
      else case NonDecimalIntegerLiteral s of
        Some n \<Rightarrow> (if n < 9007199254740992 then Exact n else Inexact)
      | None \<Rightarrow>
          if u = ''Infinity'' then Inexact
          else case StrUnsignedDecimalLiteral u of
            None \<Rightarrow> NaN
          | Some (n, k) \<Rightarrow>
              if n = 0 then Exact 0
              else if 0 \<le> k then
                (if n * 10 ^ nat k < 9007199254740992
                 then Exact (if take 1 s = ''-'' then - (n * 10 ^ nat k) else n * 10 ^ nat k)
                 else Inexact)
              else
                (if n mod 10 ^ nat (- k) = 0 \<and> n div 10 ^ nat (- k) < 9007199254740992
                 then Exact (if take 1 s = ''-'' then - (n div 10 ^ nat (- k)) else n div 10 ^ nat (- k))
                 else Inexact))"

text \<open>
  \<^verbatim>\<open>Number(s) || 0\<close> for a trimmed \<open>s\<close>: 0 for a text that is not a number, the
  integer for an exact one (0 stays 0). For any other number the value is the host's:
  the parameter \<open>inexact\<close> gives \<^verbatim>\<open>Number(s) || 0\<close> for such a text.
\<close>

definition Number_or_0 :: "(string \<Rightarrow> priority) \<Rightarrow> string \<Rightarrow> priority" where
  "Number_or_0 inexact s =
     (case StringToNumber s of
        NaN \<Rightarrow> Priority 0
      | Exact n \<Rightarrow> Priority n
      | Inexact \<Rightarrow> inexact s)"

text \<open>The variables of the loop of \<^verbatim>\<open>parse\<close>.\<close>

record parse_state =
  snippetInfos :: "snippetInfo list"
  script :: "string list"
  isCode :: bool
  pending_priority :: priority
  pending_context :: "string option"

definition initial_state :: parse_state where
  "initial_state = \<lparr>snippetInfos = [], script = [], isCode = False,
     pending_priority = Priority 0, pending_context = None\<rparr>"

function parse_loop ::
  "(string \<Rightarrow> bool) \<Rightarrow> (string \<Rightarrow> priority) \<Rightarrow> string list \<Rightarrow> parse_state \<Rightarrow> error + parse_state" where
  "parse_loop regexp_ok inexact [] st = Inr st"
| "parse_loop regexp_ok inexact (line # lines) st =
     (if isCode st then
        (if startsWith line ''endglobal'' then parse_loop regexp_ok inexact lines (st\<lparr>isCode := False\<rparr>)
         else parse_loop regexp_ok inexact lines (st\<lparr>script := script st @ [line]\<rparr>))
      else if startsWith line ''#'' then parse_loop regexp_ok inexact lines st
      else if startsWith line ''global'' then parse_loop regexp_ok inexact lines (st\<lparr>isCode := True\<rparr>)
      else if startsWith line ''priority '' then
        parse_loop regexp_ok inexact lines
          (st\<lparr>pending_priority := Number_or_0 inexact (trim (drop (length ''priority '') line))\<rparr>)
      else if startsWith line ''context '' then
        parse_loop regexp_ok inexact lines
          (st\<lparr>pending_context :=
             (let c = trim (drop (length ''context '') line) in if c = [] then None else Some c)\<rparr>)
      else if HEADER_REGEXP_exec line \<noteq> None then
        (case parseSnippet regexp_ok line lines of
           Inl e \<Rightarrow> Inl e
         | Inr (info, lines') \<Rightarrow>
             parse_loop regexp_ok inexact lines'
               (st\<lparr>snippetInfos := snippetInfos st @
                     [info\<lparr>header := (header info)\<lparr>priority := Some (pending_priority st)\<rparr>,
                            contextFilter := pending_context st\<rparr>],
                   pending_priority := Priority 0,
                   pending_context := None\<rparr>))
      else parse_loop regexp_ok inexact lines st)"
  by pat_completeness auto
termination
proof (relation "measure (\<lambda>(regexp_ok, inexact, lines, st). length lines)")
qed (auto dest!: length_parseSnippet)

text \<open>
  The lines appended after the loop: \<^verbatim>\<open>return [\<close>, one object per snippet (the context
  filter only when it is a non-empty text), \<^verbatim>\<open>]\<close>.
\<close>

definition snippet_lines :: "snippetInfo \<Rightarrow> string list" where
  "snippet_lines snippet =
     [''{''] @
     (case contextFilter snippet of
        Some c \<Rightarrow> (if c \<noteq> [] then [''contextFilter: (context) => ('' @ c @ ''),''] else [])
      | None \<Rightarrow> []) @
     [''generatorFunction: '' @ body snippet, ''},'']"

definition wrappedScript :: "parse_state \<Rightarrow> string" where
  "wrappedScript st =
     join [LF] (script st @ [''return [''] @ concat (map snippet_lines (snippetInfos st)) @ ['']''])"

subsection \<open>Execution adapter\<close>

text \<open>The rewriting of the message in the \<^verbatim>\<open>catch\<close> block of \<^verbatim>\<open>parse\<close>.\<close>

definition enrich :: "string \<Rightarrow> string" where
  \<open>enrich errorMessage =
     (if includes_str errorMessage ''has already been declared'' then
        ''Variable redeclaration detected in global block. Please check for duplicate variable declarations like 'let', 'const', or 'var' statements. Original error: '' @ errorMessage
      else if includes_str errorMessage ''Cannot read properties of undefined'' then
        (if includes_str errorMessage ''document'' then
           ''Trying to access 'document' property of undefined. This usually happens when 'vscode.window.activeTextEditor' is null (no active editor). Consider adding null checks: 'let editor = vscode.window.activeTextEditor; if (editor) { let document = editor.document; }'. Original error: '' @ errorMessage
         else
           ''Accessing property of undefined object. This often happens when variables are not properly initialized or when VS Code objects are not available during parsing. Original error: '' @ errorMessage)
      else if includes_str errorMessage ''is not defined'' then
        ''Undefined variable detected. Make sure all variables used in your snippets are properly declared in the global block. Original error: '' @ errorMessage
      else errorMessage)\<close>

text \<open>
  \<^verbatim>\<open>safeRequire\<close>. The host's \<^verbatim>\<open>require\<close> is the parameter: \<open>Inl\<close> is what it throws.
  The result is the value returned (\<open>None\<close> is \<^verbatim>\<open>null\<close>) and the calls of
  \<^verbatim>\<open>console.warn\<close>, each with its message and the error.
\<close>

definition safeRequire :: "(string \<Rightarrow> 'e + 'm) \<Rightarrow> string \<Rightarrow> 'm option \<times> (string \<times> 'e) list" where
  "safeRequire require moduleName =
     (case require moduleName of
        Inr m \<Rightarrow> (Some m, [])
      | Inl error \<Rightarrow>
          (None, [(''[HSnips] Could not require module '' @ [CHR 0x27] @ moduleName @ [CHR 0x27] @ '':'', error)]))"

text \<open>An element of the array the executed script returns (\<^verbatim>\<open>IHSnippetParseResult\<close>).\<close>

record ('c, 'f) parseResult =
  result_contextFilter :: "'c option"
  result_generatorFunction :: 'f

text \<open>
  Modelled from the spec: the class \<^verbatim>\<open>HSnippet\<close> of \<^verbatim>\<open>hsnippet.ts\<close>, which is not among
  the sources. The spec gives the produced artifact as header, generator function and
  optional context filter: the three arguments of the constructor call.
\<close>

record ('c, 'f) HSnippet =
  snippet_header :: snippetHeader
  snippet_generatorFunction :: 'f
  snippet_contextFilter :: "'c option"

text \<open>
  \<^verbatim>\<open>snippetInfos.map((s, i) => new HSnippet(s.header, generators[i].generatorFunction,
  generators[i].contextFilter))\<close>, from index \<open>i\<close> on: reading a property of a missing
  \<^verbatim>\<open>generators[i]\<close> throws.
\<close>

fun make_snippets ::
  "nat \<Rightarrow> snippetInfo list \<Rightarrow> ('c, 'f) parseResult list \<Rightarrow> error + ('c, 'f) HSnippet list" where
  "make_snippets i [] gs = Inr []"
| "make_snippets i (s # ss) [] = Inl (MissingGenerator i)"
| "make_snippets i (s # ss) (g # gs) =
     (case make_snippets (Suc i) ss gs of
        Inl e \<Rightarrow> Inl e
      | Inr hs \<Rightarrow>
          Inr (\<lparr>snippet_header = header s,
                snippet_generatorFunction = result_generatorFunction g,
                snippet_contextFilter = result_contextFilter g\<rparr> # hs))"

text \<open>
  \<^verbatim>\<open>parse\<close>. The parameter \<open>executionFunction\<close> stands for the host's
  \<^verbatim>\<open>new Function('require', wrappedScript)\<close> and its call: given the value bound to
  \<^verbatim>\<open>require\<close> and the script, it gives the array of generators, or \<open>Inl\<close> the message
  of what the construction or the call throws
  (\<^verbatim>\<open>error instanceof Error ? error.message : String(error)\<close>). What \<^verbatim>\<open>parse\<close> binds to
  \<^verbatim>\<open>require\<close> is \<^verbatim>\<open>safeRequire\<close>, over the host's own \<^verbatim>\<open>require\<close>. The
  \<^verbatim>\<open>console.error\<close> of the \<^verbatim>\<open>catch\<close> block is left out.
\<close>

definition parse ::
  "(string \<Rightarrow> bool) \<Rightarrow> (string \<Rightarrow> priority) \<Rightarrow> (string \<Rightarrow> 'e + 'm) \<Rightarrow>
   ((string \<Rightarrow> 'm option \<times> (string \<times> 'e) list) \<Rightarrow> string \<Rightarrow> string + ('c, 'f) parseResult list) \<Rightarrow>
   string \<Rightarrow> error + ('c, 'f) HSnippet list" where
  "parse regexp_ok inexact require executionFunction content =
     (case parse_loop regexp_ok inexact (split_lines content) initial_state of
        Inl e \<Rightarrow> Inl e
      | Inr st \<Rightarrow>
          (case executionFunction (safeRequire require) (wrappedScript st) of
             Inl errorMessage \<Rightarrow>
               Inl (FailedToParseSnippetCode (''Failed to parse snippet code: '' @ enrich errorMessage))
           | Inr generators \<Rightarrow> make_snippets 0 (snippetInfos st) generators))"

subsection \<open>Invoking a generator function\<close>

text \<open>
  What the host does when a compiled generator function is called, for the statements
  \<^verbatim>\<open>parseSnippet\<close> emits and a small fragment of script lines. The body is read line
  by line, one statement a line. The three local variables are \<open>None\<close> until their
  \<^verbatim>\<open>let\<close> has run; no binding of the same names in the enclosing preamble is modelled.
\<close>

datatype jsvalue = JString string | JNumber int

datatype segment = Text string | Block nat

record frame =
  var_rv :: "jsvalue option"
  var_result :: "segment list option"
  var_blockResults :: "string list option"

text \<open>
  How a call ends: it returns the pair of the two arrays, it throws a
  \<^verbatim>\<open>ReferenceError\<close> for the name given, it falls off the end of the body, or it meets
  a statement outside the fragment modelled here. When the host rejects the source
  with a \<^verbatim>\<open>SyntaxError\<close>, there is no function to call.
\<close>

datatype outcome =
    Returns "segment list" "string list"
  | ReferenceError string
  | ReturnsUndefined
  | SyntaxError
  | NotModelled string

datatype step = Next frame | Done outcome

text \<open>
  The value of a double-quoted string literal, read from right after its opening quote:
  the value and the text after the closing quote. Of the escapes only backslash,
  double quote and \<^verbatim>\<open>n\<close> are read; a raw line terminator is not allowed in a literal.
\<close>

fun string_literal :: "string \<Rightarrow> (string \<times> string) option" where
  "string_literal [] = None"
| "string_literal [c] = (if c = dquote then Some ([], []) else None)"
| "string_literal (c # d # cs) =
     (if c = dquote then Some ([], d # cs)
      else if c = backslash then
        (if d = backslash \<or> d = dquote then
           (case string_literal cs of Some (v, r) \<Rightarrow> Some (d # v, r) | None \<Rightarrow> None)
         else if d = CHR ''n'' then
           (case string_literal cs of Some (v, r) \<Rightarrow> Some (LF # v, r) | None \<Rightarrow> None)
         else None)
      else if c = LF \<or> c = CR then None
      else (case string_literal (d # cs) of Some (v, r) \<Rightarrow> Some (c # v, r) | None \<Rightarrow> None))"

text \<open>\<^verbatim>\<open>String(v)\<close> of a string and of an integer.\<close>

fun decimal_string :: "nat \<Rightarrow> string" where
  "decimal_string n =
     (if n < 10 then [char_of (48 + n)]
      else decimal_string (n div 10) @ [char_of (48 + n mod 10)])"

definition String :: "jsvalue \<Rightarrow> string" where
  "String v =
     (case v of
        JString s \<Rightarrow> s
      | JNumber n \<Rightarrow> (if n < 0 then ''-'' @ decimal_string (nat (- n)) else decimal_string (nat n)))"

text \<open>
  The script fragment: a sum of decimal integer literals, with blanks around the
  literals. A literal is \<^verbatim>\<open>0\<close> or starts with another digit (with a leading zero the
  host may read it as octal). The value is exact below \<open>2 ^ 53 = 9007199254740992\<close>.
\<close>

fun split_plus :: "string \<Rightarrow> string list" where
  "split_plus [] = [[]]"
| "split_plus (c # cs) =
     (if c = CHR ''+'' then [] # split_plus cs
      else (case split_plus cs of [] \<Rightarrow> [[c]] | p # ps \<Rightarrow> (c # p) # ps))"

definition sum_expression :: "string \<Rightarrow> int option" where
  "sum_expression e =
     (let terms = map trim (split_plus e);
          n = sum_list (map decimal_value terms)
      in if list_all (\<lambda>t. t \<noteq> [] \<and> list_all isDigit t \<and> (t = ''0'' \<or> take 1 t \<noteq> ''0'')) terms \<and>
            n < 9007199254740992
         then Some n else None)"

text \<open>
  A script line: empty, an assignment \<^verbatim>\<open>rv = <sum>\<close>, or a sum as an expression
  statement, whose value is dropped.
\<close>

definition script_statement :: "string \<Rightarrow> frame \<Rightarrow> step" where
  "script_statement l fr =
     (let t = trim l; r = trim (drop 2 t) in
      if t = [] then Next fr
      else if startsWith t ''rv'' \<and> startsWith r ''='' then
        (case (sum_expression (drop 1 r), var_rv fr) of
           (Some n, Some _) \<Rightarrow> Next (fr\<lparr>var_rv := Some (JNumber n)\<rparr>)
         | _ \<Rightarrow> Done (NotModelled l))
      else (case sum_expression t of Some n \<Rightarrow> Next fr | None \<Rightarrow> Done (NotModelled l)))"

definition statement :: "string \<Rightarrow> frame \<Rightarrow> step" where
  \<open>statement l fr =
     (if l = LET_RV then
        (case var_rv fr of None \<Rightarrow> Next (fr\<lparr>var_rv := Some (JString [])\<rparr>) | Some _ \<Rightarrow> Done (NotModelled l))
      else if l = LET_RESULT then
        (case var_result fr of None \<Rightarrow> Next (fr\<lparr>var_result := Some []\<rparr>) | Some _ \<Rightarrow> Done (NotModelled l))
      else if l = LET_BLOCKRESULTS then
        (case var_blockResults fr of None \<Rightarrow> Next (fr\<lparr>var_blockResults := Some []\<rparr>)
         | Some _ \<Rightarrow> Done (NotModelled l))
      else if l = RESET_RV then
        (case var_rv fr of None \<Rightarrow> Done (NotModelled l) | Some _ \<Rightarrow> Next (fr\<lparr>var_rv := Some (JString [])\<rparr>))
      else if l = PUSH_BLOCK then
        (case var_result fr of
           None \<Rightarrow> Done (ReferenceError ''_result'')
         | Some res \<Rightarrow>
             (case var_blockResults fr of
                None \<Rightarrow> Done (ReferenceError ''_blockResults'')
              | Some blocks \<Rightarrow> Next (fr\<lparr>var_result := Some (res @ [Block (length blocks)])\<rparr>)))
      else if l = PUSH_BLOCKRESULT then
        (case var_blockResults fr of
           None \<Rightarrow> Done (ReferenceError ''_blockResults'')
         | Some blocks \<Rightarrow>
             (case var_rv fr of
                None \<Rightarrow> Done (ReferenceError ''rv'')
              | Some v \<Rightarrow> Next (fr\<lparr>var_blockResults := Some (blocks @ [String v])\<rparr>)))
      else if l = RETURN then
        (case var_result fr of
           None \<Rightarrow> Done (ReferenceError ''_result'')
         | Some res \<Rightarrow>
             (case var_blockResults fr of
                None \<Rightarrow> Done (ReferenceError ''_blockResults'')
              | Some blocks \<Rightarrow> Done (Returns res blocks)))
      else if startsWith l ''_result.push("'' then
        (case string_literal (drop (length ''_result.push("'') l) of
           Some (v, r) \<Rightarrow>
             (if r = '');'' then
                (case var_result fr of
                   None \<Rightarrow> Done (ReferenceError ''_result'')
                 | Some res \<Rightarrow> Next (fr\<lparr>var_result := Some (res @ [Text v])\<rparr>))
              else Done (NotModelled l))
         | None \<Rightarrow> Done (NotModelled l))
      else script_statement l fr)\<close>

fun statements :: "string list \<Rightarrow> frame \<Rightarrow> outcome" where
  "statements [] fr = ReturnsUndefined"
| "statements (l # ls) fr =
     (case statement l fr of Next fr' \<Rightarrow> statements ls fr' | Done out \<Rightarrow> out)"

text \<open>The lines of a body: the pieces between line feeds.\<close>

fun split_LF :: "string \<Rightarrow> string list" where
  "split_LF [] = [[]]"
| "split_LF (c # cs) =
     (if c = LF then [] # split_LF cs
      else (case split_LF cs of [] \<Rightarrow> [[c]] | l # ls \<Rightarrow> (c # l) # ls))"

text \<open>
  The lines the host can read as statements of the fragment: the statements
  \<^verbatim>\<open>parseSnippet\<close> emits, an append of a string literal, and the script lines above.
\<close>

definition script_line :: "string \<Rightarrow> bool" where
  "script_line l =
     (let t = trim l; r = trim (drop 2 t) in
      if t = [] then True
      else if startsWith t ''rv'' \<and> startsWith r ''='' then sum_expression (drop 1 r) \<noteq> None
      else sum_expression t \<noteq> None)"

definition modelled :: "string \<Rightarrow> bool" where
  \<open>modelled l =
     (if l \<in> set [LET_RV, LET_RESULT, LET_BLOCKRESULTS, RESET_RV, PUSH_BLOCK, PUSH_BLOCKRESULT, RETURN]
      then True
      else if startsWith l ''_result.push("'' then
        (case string_literal (drop (length ''_result.push("'') l) of
           Some (v, r) \<Rightarrow> r = '');''
         | None \<Rightarrow> False)
      else script_line l)\<close>

text \<open>A \<^verbatim>\<open>let\<close> of the same name twice in the body: the host rejects the source.\<close>

definition redeclared :: "string list \<Rightarrow> bool" where
  "redeclared ls =
     (1 < count_list ls LET_RV \<or> 1 < count_list ls LET_RESULT \<or> 1 < count_list ls LET_BLOCKRESULTS)"

text \<open>
  Calling the generator function whose source is \<open>b\<close>, with any five arguments. The
  host reads the whole source first, the lines after the \<^verbatim>\<open>return\<close> too; then the
  statements between the head \<^verbatim>\<open>(t, m, w, path, snip) => {\<close> and the closing brace run
  in a fresh frame.
\<close>

definition invoke :: "string \<Rightarrow> outcome" where
  "invoke b =
     (let ls = split_LF b; stmts = butlast (tl ls) in
      if 2 \<le> length ls \<and> hd ls = FUNCTION_HEAD \<and> last ls = ''}'' \<and> list_all modelled stmts
      then (if redeclared stmts then SyntaxError
            else statements stmts \<lparr>var_rv = None, var_result = None, var_blockResults = None\<rparr>)
      else NotModelled b)"

text \<open>
  The generator sources a file compiles to, in file order (none when the loop of
  \<^verbatim>\<open>parse\<close> raises).
\<close>

definition generator_bodies ::
  "(string \<Rightarrow> bool) \<Rightarrow> (string \<Rightarrow> priority) \<Rightarrow> string \<Rightarrow> string list" where
  "generator_bodies regexp_ok inexact content =
     (case parse_loop regexp_ok inexact (split_lines content) initial_state of
        Inl e \<Rightarrow> []
      | Inr st \<Rightarrow> map body (snippetInfos st))"

section \<open>Properties\<close>

subsection \<open>End to end: one text line with one script block\<close>

lemma hello_world_bodies:
  \<open>generator_bodies regexp_ok inexact
     (''snippet foo "Foo"'' @ [LF] @ ''hello ``1+1`` world'' @ [LF] @ ''endsnippet'') =
   [join [LF] [FUNCTION_HEAD, LET_RV, LET_RESULT, LET_BLOCKRESULTS, push_text ''hello '', RESET_RV,
      ''1+1'', PUSH_BLOCK, PUSH_BLOCKRESULT, push_text '' world'', RETURN, ''}'']]\<close>
  by code_simp

lemma hello_world_invoke:
  \<open>invoke (join [LF] [FUNCTION_HEAD, LET_RV, LET_RESULT, LET_BLOCKRESULTS, push_text ''hello '',
      RESET_RV, ''1+1'', PUSH_BLOCK, PUSH_BLOCKRESULT, push_text '' world'', RETURN, ''}'']) =
   Returns [Text ''hello '', Block 0, Text '' world''] ['''']\<close>
  by code_simp

text \<open>
  C1, as the code has it. The file of the three lines \<^verbatim>\<open>snippet foo "Foo"\<close>,
  \<^verbatim>\<open>hello ``1+1`` world\<close>, \<^verbatim>\<open>endsnippet\<close> compiles to exactly one generator; called, it
  returns the segments \<^verbatim>\<open>hello \<close>, block 0, \<^verbatim>\<open> world\<close>, and the block results hold one
  entry, the empty string: the result of a block is the value of \<^verbatim>\<open>rv\<close>, which is
  reset to the empty string when the block starts and which the expression
  statement \<^verbatim>\<open>1+1\<close> does not assign.
\<close>

theorem C1_hello_world:
  \<open>map invoke (generator_bodies regexp_ok inexact
      (''snippet foo "Foo"'' @ [LF] @ ''hello ``1+1`` world'' @ [LF] @ ''endsnippet'')) =
   [Returns [Text ''hello '', Block 0, Text '' world''] ['''']]\<close>
  by (simp only: hello_world_bodies hello_world_invoke list.map)

text \<open>C1 as stated asks for the block results \<^verbatim>\<open>["2"]\<close>; the generator does not return them.\<close>

theorem C1_block_result_is_not_2:
  \<open>map invoke (generator_bodies (\<lambda>p. True) (\<lambda>s. Priority 0)
      (''snippet foo "Foo"'' @ [LF] @ ''hello ``1+1`` world'' @ [LF] @ ''endsnippet'')) \<noteq>
   [Returns [Text ''hello '', Block 0, Text '' world''] [''2'']]\<close>
  by (simp only: hello_world_bodies hello_world_invoke list.map) simp

text \<open>A block that assigns \<^verbatim>\<open>rv\<close> does give its value.\<close>

lemma assigned_block_result:
  \<open>map invoke (generator_bodies regexp_ok inexact
      (''snippet foo "Foo"'' @ [LF] @ ''hello ``rv = 1+1`` world'' @ [LF] @ ''endsnippet'')) =
   [Returns [Text ''hello '', Block 0, Text '' world''] [''2'']]\<close>
  by code_simp

subsection \<open>Bodies of text lines\<close>

lemma parseSnippet_loop_text_lines:
  assumes "\<forall>l\<in>set ls. \<not> includes_str l CODE_DELIMITER \<and> \<not> startsWith l ''endsnippet''"
  shows "parseSnippet_loop (ls @ ''endsnippet'' # rest) scr False =
           (scr @ concat (map (\<lambda>l. [push_text l, PUSH_NEWLINE]) ls), rest)"
  using assms
proof (induction ls arbitrary: scr)
  case Nil
  show ?case by (simp add: startsWith_def)
next
  case (Cons l ls)
  then show ?case by simp
qed

lemma split_LF_line: "LF \<notin> set x \<Longrightarrow> split_LF (x @ LF # r) = x # split_LF r"
  by (induction x) auto

lemma split_LF_last: "LF \<notin> set x \<Longrightarrow> split_LF x = [x]"
  by (induction x) auto

lemma split_LF_join:
  "xs \<noteq> [] \<Longrightarrow> \<forall>x\<in>set xs. LF \<notin> set x \<Longrightarrow> split_LF (join [LF] xs) = xs"
proof (induction "[LF]" xs rule: join.induct)
  case 1
  then show ?case by simp
next
  case (2 x)
  then show ?case by (simp add: split_LF_last)
next
  case (3 x y ys)
  then show ?case by (simp add: split_LF_line)
qed

text \<open>
  Escaping and reading back: the literal \<^verbatim>\<open>"${escapeString(line)}"\<close> has the value
  \<open>line\<close>, for a line without a line terminator.
\<close>

lemma escapeString_Cons:
  "escapeString (c # s) =
     (if c = backslash then [backslash, backslash] else if c = dquote then [backslash, dquote] else [c])
     @ escapeString s"
  by (simp add: escapeString_def backslash_def dquote_def)

lemma escapeString_Nil: "escapeString [] = []"
  by (simp add: escapeString_def)

lemma string_literal_dquote: "string_literal (dquote # r) = Some ([], r)"
  by (cases r) simp_all

lemma string_literal_escapeString:
  "CR \<notin> set l \<Longrightarrow> LF \<notin> set l \<Longrightarrow> string_literal (escapeString l @ dquote # r) = Some (l, r)"
proof (induction l)
  case Nil
  show ?case by (simp add: escapeString_Nil string_literal_dquote)
next
  case (Cons c l)
  then have IH: "string_literal (escapeString l @ dquote # r) = Some (l, r)" by simp
  obtain d ds where X: "escapeString l @ dquote # r = d # ds"
    by (cases "escapeString l @ dquote # r") auto
  show ?case
  proof (cases "c = backslash \<or> c = dquote")
    case True
    with IH show ?thesis
      by (auto simp: escapeString_Cons backslash_def dquote_def)
  next
    case False
    with Cons.prems IH X show ?thesis
      by (auto simp: escapeString_Cons)
  qed
qed

lemma set_escapeString: "set (escapeString l) \<subseteq> insert backslash (set l)"
  by (induction l) (auto simp: escapeString_Nil escapeString_Cons)

lemma LF_push_text: "LF \<notin> set l \<Longrightarrow> LF \<notin> set (push_text l)"
  using set_escapeString [of l] by (auto simp: push_text_def LF_def backslash_def)

lemma push_text_distinct:
  "push_text l \<noteq> LET_RV" "push_text l \<noteq> LET_RESULT" "push_text l \<noteq> LET_BLOCKRESULTS"
  "push_text l \<noteq> RESET_RV" "push_text l \<noteq> PUSH_BLOCK" "push_text l \<noteq> PUSH_BLOCKRESULT"
  "push_text l \<noteq> RETURN"
  by (simp_all add: push_text_def LET_RV_def LET_RESULT_def LET_BLOCKRESULTS_def RESET_RV_def
      PUSH_BLOCK_def PUSH_BLOCKRESULT_def RETURN_def)

lemma push_text_prefix: \<open>startsWith (push_text l) ''_result.push("''\<close>
  by (simp add: push_text_def startsWith_def)

lemma push_text_literal:
  assumes "CR \<notin> set l" and "LF \<notin> set l"
  shows \<open>string_literal (drop (length ''_result.push("'') (push_text l)) = Some (l, '');'')\<close>
  using string_literal_escapeString [OF assms, of "'');''"]
  by (simp add: push_text_def dquote_def)

lemma statement_push_text:
  assumes "CR \<notin> set l" and "LF \<notin> set l" and "var_result fr = Some res"
  shows "statement (push_text l) fr = Next (fr\<lparr>var_result := Some (res @ [Text l])\<rparr>)"
  unfolding statement_def
  by (simp only: push_text_distinct push_text_prefix push_text_literal [OF assms(1,2)] assms(3)
      if_True if_False option.case prod.case refl)

lemma modelled_push_text:
  assumes "CR \<notin> set l" and "LF \<notin> set l"
  shows "modelled (push_text l)"
  unfolding modelled_def
  by (simp only: push_text_distinct push_text_prefix push_text_literal [OF assms]
      if_True if_False option.case prod.case refl list.set insert_iff empty_iff simp_thms)

lemma modelled_emitted:
  "modelled LET_RV" "modelled LET_RESULT" "modelled LET_BLOCKRESULTS" "modelled RESET_RV"
  "modelled PUSH_BLOCK" "modelled PUSH_BLOCKRESULT" "modelled RETURN"
  by (simp_all add: modelled_def)

lemma modelled_PUSH_NEWLINE: "modelled PUSH_NEWLINE"
  by (simp add: modelled_def PUSH_NEWLINE_def LET_RV_def LET_RESULT_def LET_BLOCKRESULTS_def
      RESET_RV_def PUSH_BLOCK_def PUSH_BLOCKRESULT_def RETURN_def startsWith_def backslash_def
      dquote_def)

lemma PUSH_NEWLINE_distinct:
  "PUSH_NEWLINE \<noteq> LET_RV" "PUSH_NEWLINE \<noteq> LET_RESULT" "PUSH_NEWLINE \<noteq> LET_BLOCKRESULTS"
  by (simp_all add: PUSH_NEWLINE_def LET_RV_def LET_RESULT_def LET_BLOCKRESULTS_def)

lemma emitted_distinct:
  "LET_RV \<noteq> LET_RESULT" "LET_RV \<noteq> LET_BLOCKRESULTS" "LET_RESULT \<noteq> LET_BLOCKRESULTS"
  "RETURN \<noteq> LET_RV" "RETURN \<noteq> LET_RESULT" "RETURN \<noteq> LET_BLOCKRESULTS"
  by (simp_all add: LET_RV_def LET_RESULT_def LET_BLOCKRESULTS_def RETURN_def)

lemma text_lines_declare_nothing:
  "c = LET_RV \<or> c = LET_RESULT \<or> c = LET_BLOCKRESULTS \<Longrightarrow>
   count_list (concat (map (\<lambda>l. [push_text l, PUSH_NEWLINE]) ls)) c = 0"
  using push_text_distinct(1-3) PUSH_NEWLINE_distinct
  by (induction ls) auto

lemma statement_PUSH_NEWLINE:
  assumes "var_result fr = Some res"
  shows "statement PUSH_NEWLINE fr = Next (fr\<lparr>var_result := Some (res @ [Text [LF]])\<rparr>)"
  using assms
  by (simp add: statement_def PUSH_NEWLINE_def LET_RV_def LET_RESULT_def LET_BLOCKRESULTS_def
      RESET_RV_def PUSH_BLOCK_def PUSH_BLOCKRESULT_def RETURN_def startsWith_def backslash_def
      dquote_def)

lemma statements_text_lines:
  assumes "\<forall>l\<in>set ls. CR \<notin> set l \<and> LF \<notin> set l" and "var_result fr = Some res"
  shows "statements (concat (map (\<lambda>l. [push_text l, PUSH_NEWLINE]) ls) @ rest) fr =
         statements rest (fr\<lparr>var_result := Some (res @ concat (map (\<lambda>l. [Text l, Text [LF]]) ls))\<rparr>)"
  using assms
proof (induction ls arbitrary: fr res)
  case Nil
  then have "fr\<lparr>var_result := Some res\<rparr> = fr" by simp
  then show ?case by simp
next
  case (Cons l ls)
  let ?fr1 = "fr\<lparr>var_result := Some (res @ [Text l])\<rparr>"
  let ?fr2 = "?fr1\<lparr>var_result := Some ((res @ [Text l]) @ [Text [LF]])\<rparr>"
  from Cons.prems have 1: "statement (push_text l) fr = Next ?fr1"
    by (simp add: statement_push_text)
  have 2: "statement PUSH_NEWLINE ?fr1 = Next ?fr2"
    by (rule statement_PUSH_NEWLINE) simp
  have 3: "var_result ?fr2 = Some (res @ [Text l, Text [LF]])" by simp
  from Cons.prems have 4: "\<forall>l\<in>set ls. CR \<notin> set l \<and> LF \<notin> set l" by simp
  from Cons.IH [OF 4 3] 1 2 show ?case by simp
qed

lemma statements_prologue:
  "statements (LET_RV # LET_RESULT # LET_BLOCKRESULTS # rest)
     \<lparr>var_rv = None, var_result = None, var_blockResults = None\<rparr> =
   statements rest \<lparr>var_rv = Some (JString []), var_result = Some [], var_blockResults = Some []\<rparr>"
  by (simp add: statement_def LET_RV_def LET_RESULT_def LET_BLOCKRESULTS_def)

lemma statement_RETURN:
  "var_result fr = Some res \<Longrightarrow> var_blockResults fr = Some blocks \<Longrightarrow>
   statement RETURN fr = Done (Returns res blocks)"
  by (simp add: statement_def LET_RV_def LET_RESULT_def LET_BLOCKRESULTS_def RESET_RV_def
      PUSH_BLOCK_def PUSH_BLOCKRESULT_def RETURN_def)

lemma LF_emitted:
  "LF \<notin> set FUNCTION_HEAD" "LF \<notin> set LET_RV" "LF \<notin> set LET_RESULT" "LF \<notin> set LET_BLOCKRESULTS"
  "LF \<notin> set PUSH_NEWLINE" "LF \<notin> set RETURN" "LF \<noteq> CHR ''}''"
  by (simp_all add: LF_def FUNCTION_HEAD_def LET_RV_def LET_RESULT_def LET_BLOCKRESULTS_def
      PUSH_NEWLINE_def RETURN_def backslash_def)

text \<open>
  A body of one or more text lines (no delimiter, no line terminator inside a line)
  closed by \<^verbatim>\<open>endsnippet\<close>: the statement dropped is the last newline append, the
  generator returns text segments only, and their concatenation is the lines joined by
  line feeds.
\<close>

lemma text_lines_round_trip:
  assumes "parseSnippetHeader regexp_ok h = Inr hdr"
    and "\<forall>x\<in>set (ls @ [l]). \<not> includes_str x CODE_DELIMITER \<and> \<not> startsWith x ''endsnippet'' \<and>
           CR \<notin> set x \<and> LF \<notin> set x"
  shows "\<exists>b. parseSnippet regexp_ok h (ls @ l # ''endsnippet'' # rest) =
               Inr (\<lparr>body = b, contextFilter = None, header = hdr\<rparr>, rest) \<and>
             invoke b = Returns (concat (map (\<lambda>x. [Text x, Text [LF]]) ls) @ [Text l]) []"
proof -
  let ?f = "\<lambda>l. [push_text l, PUSH_NEWLINE]"
  let ?middle = "concat (map ?f ls) @ [push_text l, RETURN]"
  let ?all = "FUNCTION_HEAD # LET_RV # LET_RESULT # LET_BLOCKRESULTS # ?middle @ [''}'']"
  from assms(2) have tl: "\<forall>x\<in>set (ls @ [l]). \<not> includes_str x CODE_DELIMITER \<and> \<not> startsWith x ''endsnippet''"
    by simp
  have "parseSnippet_loop ((ls @ [l]) @ ''endsnippet'' # rest)
          [FUNCTION_HEAD, LET_RV, LET_RESULT, LET_BLOCKRESULTS] False =
        ([FUNCTION_HEAD, LET_RV, LET_RESULT, LET_BLOCKRESULTS] @ concat (map ?f (ls @ [l])), rest)"
    by (rule parseSnippet_loop_text_lines [OF tl])
  then have p: "parseSnippet regexp_ok h (ls @ l # ''endsnippet'' # rest) =
      Inr (\<lparr>body = join [LF] ?all, contextFilter = None, header = hdr\<rparr>, rest)"
    using assms(1) by (simp add: parseSnippet_def butlast_append)
  have nl: "\<forall>x\<in>set ?all. LF \<notin> set x"
    using assms(2) by (auto simp: LF_emitted LF_push_text)
  have sp: "split_LF (join [LF] ?all) = ?all"
    by (rule split_LF_join [OF _ nl]) simp
  have cr: "\<forall>x\<in>set ls. CR \<notin> set x \<and> LF \<notin> set x" and l: "CR \<notin> set l" "LF \<notin> set l"
    using assms(2) by simp_all
  have "invoke (join [LF] ?all) =
          statements (LET_RV # LET_RESULT # LET_BLOCKRESULTS # ?middle)
            \<lparr>var_rv = None, var_result = None, var_blockResults = None\<rparr>"
  proof -
    have m: "list_all modelled (LET_RV # LET_RESULT # LET_BLOCKRESULTS # ?middle)"
      using cr l by (auto simp: list_all_iff modelled_emitted modelled_push_text modelled_PUSH_NEWLINE)
    have r: "\<not> redeclared (LET_RV # LET_RESULT # LET_BLOCKRESULTS # ?middle)"
      using push_text_distinct(1-3) [of l] emitted_distinct
      by (auto simp: redeclared_def text_lines_declare_nothing)
    have b: "butlast (tl ?all) = LET_RV # LET_RESULT # LET_BLOCKRESULTS # ?middle"
      by (simp add: butlast_append)
    show ?thesis
      unfolding invoke_def sp Let_def b using m r by simp
  qed
  also have "\<dots> = statements (concat (map ?f ls) @ [push_text l, RETURN])
      \<lparr>var_rv = Some (JString []), var_result = Some [], var_blockResults = Some []\<rparr>"
    by (rule statements_prologue)
  also have "\<dots> = statements [push_text l, RETURN]
      \<lparr>var_rv = Some (JString []),
         var_result = Some (concat (map (\<lambda>x. [Text x, Text [LF]]) ls)),
         var_blockResults = Some []\<rparr>"
    using statements_text_lines [OF cr, of _ "[]"] by simp
  also have "\<dots> = Returns (concat (map (\<lambda>x. [Text x, Text [LF]]) ls) @ [Text l]) []"
    using l by (simp add: statement_push_text statement_RETURN)
  finally show ?thesis using p by blast
qed

lemma text_of_segments:
  "concat (map (\<lambda>s. case s of Text t \<Rightarrow> t | Block n \<Rightarrow> [])
     (concat (map (\<lambda>x. [Text x, Text [LF]]) ls) @ [Text l])) = join [LF] (ls @ [l])"
proof (induction ls)
  case Nil
  show ?case by simp
next
  case (Cons a ls)
  then show ?case by (cases ls) simp_all
qed

subsection \<open>The statement dropped at the end of a body\<close>

text \<open>
  C2, at a body with no line at all: the file \<^verbatim>\<open>snippet foo\<close>, \<^verbatim>\<open>endsnippet\<close>. The
  last statement of the script is then the declaration of \<^verbatim>\<open>_blockResults\<close>, not a
  newline append, and \<^verbatim>\<open>script.pop()\<close> drops it all the same: the generator source
  lacks the declaration, and a call ends in a \<^verbatim>\<open>ReferenceError\<close> instead of returning
  the empty text.
\<close>

theorem C2_empty_body_loses_declaration:
  \<open>generator_bodies regexp_ok inexact (''snippet foo'' @ [LF] @ ''endsnippet'') =
     [join [LF] [FUNCTION_HEAD, LET_RV, LET_RESULT, RETURN, ''}'']] \<and>
   map invoke (generator_bodies regexp_ok inexact (''snippet foo'' @ [LF] @ ''endsnippet'')) =
     [ReferenceError ''_blockResults'']\<close>
  by code_simp

subsection \<open>Block references and block results\<close>

text \<open>
  C6, at a body whose second block is closed right before \<^verbatim>\<open>endsnippet\<close> on the same
  line: the file \<^verbatim>\<open>snippet foo\<close>, \<^verbatim>\<open>``rv = 1`` and ``rv = 2``endsnippet\<close>. The last
  statement of the script is then the append to \<^verbatim>\<open>_blockResults\<close>, and
  \<^verbatim>\<open>script.pop()\<close> drops it: the segments refer to blocks 0 and 1, the block results
  hold one entry.
\<close>

theorem C6_block_result_dropped:
  \<open>map invoke (generator_bodies regexp_ok inexact
      (''snippet foo'' @ [LF] @ ''``rv = 1`` and ``rv = 2``endsnippet'')) =
   [Returns [Text '''', Block 0, Text '' and '', Block 1] [''1'']]\<close>
  by code_simp

text \<open>With \<^verbatim>\<open>endsnippet\<close> on a line of its own the two agree.\<close>

lemma two_blocks:
  \<open>map invoke (generator_bodies regexp_ok inexact
      (''snippet foo'' @ [LF] @ ''``rv = 1`` and ``rv = 2``'' @ [LF] @ ''endsnippet'')) =
   [Returns [Text '''', Block 0, Text '' and '', Block 1, Text ''''] [''1'', ''2'']]\<close>
  by code_simp

subsection \<open>Header errors\<close>

lemma HEADER_REGEXP_exec_None:
  "(HEADER_REGEXP_exec s = None) = (\<not> startsWith s ''snippet'')"
  by (simp add: HEADER_REGEXP_exec_def Let_def split: prod.splits)

lemma parseSnippetHeader_invalid:
  "(parseSnippetHeader regexp_ok h = Inl InvalidSnippetHeader) = (\<not> startsWith h ''snippet'')"
proof (cases "HEADER_REGEXP_exec h")
  case None
  then show ?thesis
    using HEADER_REGEXP_exec_None [of h] by (simp add: parseSnippetHeader_def)
next
  case (Some m)
  then have "startsWith h ''snippet''"
    using HEADER_REGEXP_exec_None [of h] by simp
  with Some show ?thesis
    by (simp add: parseSnippetHeader_def Let_def split: option.splits)
qed

lemma parseSnippet_invalid:
  "(parseSnippet regexp_ok h lines = Inl InvalidSnippetHeader) = (\<not> startsWith h ''snippet'')"
  using parseSnippetHeader_invalid [of regexp_ok h]
  by (auto simp: parseSnippet_def split: sum.splits prod.splits)

lemma parse_loop_not_invalid:
  "parse_loop regexp_ok inexact lines st \<noteq> Inl InvalidSnippetHeader"
proof (induction regexp_ok inexact lines st rule: parse_loop.induct)
  case (1 regexp_ok inexact st)
  show ?case by simp
next
  case (2 regexp_ok inexact line lines st)
  show ?case
  proof (cases "\<not> isCode st \<and> \<not> startsWith line ''#'' \<and> \<not> startsWith line ''global'' \<and>
      \<not> startsWith line ''priority '' \<and> \<not> startsWith line ''context '' \<and> HEADER_REGEXP_exec line \<noteq> None")
    case True
    then have sn: "startsWith line ''snippet''"
      by (simp add: HEADER_REGEXP_exec_None)
    show ?thesis
    proof (cases "parseSnippet regexp_ok line lines")
      case (Inl e)
      with sn have "e \<noteq> InvalidSnippetHeader"
        using parseSnippet_invalid [of regexp_ok line lines] by auto
      with True Inl show ?thesis by simp
    next
      case (Inr r)
      obtain info lines' where r: "r = (info, lines')" by (cases r)
      from "2.IH"(7) [OF _ _ _ _ _ _ Inr r [symmetric]] True Inr r show ?thesis
        by simp
    qed
  next
    case False
    with "2.IH"(1-6,8) show ?thesis
      by (auto simp del: parse_loop.simps simp add: parse_loop.simps(2) [of _ _ line lines st] Let_def)
  qed
qed

lemma make_snippets_not_invalid:
  "make_snippets i ss gs \<noteq> Inl InvalidSnippetHeader"
  by (induction i ss gs rule: make_snippets.induct) (auto split: sum.splits)

lemma header_line_not_directive:
  assumes "startsWith h ''snippet''"
  shows "\<not> startsWith h ''#''" "\<not> startsWith h ''global''" "\<not> startsWith h ''priority ''"
    "\<not> startsWith h ''context ''" "HEADER_REGEXP_exec h \<noteq> None"
proof -
  from assms obtain t where "h = CHR ''s'' # t"
    by (cases h) (auto simp: startsWith_def)
  then show "\<not> startsWith h ''#''" "\<not> startsWith h ''global''" "\<not> startsWith h ''priority ''"
    "\<not> startsWith h ''context ''"
    by (simp_all add: startsWith_def)
  from assms show "HEADER_REGEXP_exec h \<noteq> None"
    by (simp add: HEADER_REGEXP_exec_None)
qed

lemma unbalanced_backtick_header:
  assumes "backtick \<notin> set r"
  shows "\<exists>hdr. parseSnippetHeader regexp_ok (''snippet '' @ backtick # r) = Inr hdr \<and>
           trigger hdr = Literal (backtick # takeWhile (\<lambda>c. \<not> isWhiteSpace c) r)"
proof -
  have "dropWhile (\<lambda>c. c \<noteq> backtick) r = []"
    using assms by (induction r) auto
  moreover have "\<not> isWhiteSpace backtick"
    by (simp add: isWhiteSpace_def backtick_def)
  ultimately have "\<exists>rest. trigger_group (backtick # r) =
      (None, Some (backtick # takeWhile (\<lambda>c. \<not> isWhiteSpace c) r), rest)"
    by (simp add: trigger_group_def)
  then obtain rest where "trigger_group (backtick # r) =
      (None, Some (backtick # takeWhile (\<lambda>c. \<not> isWhiteSpace c) r), rest)" ..
  then show ?thesis
    by (simp add: parseSnippetHeader_def HEADER_REGEXP_exec_def startsWith_def Let_def
        split: prod.splits)
qed

text \<open>
  C3, as the code has it. \<^verbatim>\<open>parseSnippetHeader\<close> raises its error exactly for a line that
  does not start with the keyword \<^verbatim>\<open>snippet\<close>, and \<^verbatim>\<open>parse\<close> hands it only lines that
  match the header grammar: whatever the file and whatever the execution of the script
  does, compiling a file never fails with the header error. Outside a \<^verbatim>\<open>global\<close> block
  a line that starts with none of \<^verbatim>\<open>#\<close>, \<^verbatim>\<open>global\<close>, \<^verbatim>\<open>priority \<close>, \<^verbatim>\<open>context \<close> and
  \<^verbatim>\<open>snippet\<close> is skipped. A header \<^verbatim>\<open>snippet \<close> followed by a backtick, with no other
  backtick on the line, parses without an error: its trigger is the literal made of
  the backtick and the non-blank characters after it.
\<close>

theorem C3_no_header_error:
  "parse regexp_ok inexact require executionFunction content \<noteq> Inl InvalidSnippetHeader \<and>
   (parseSnippetHeader regexp_ok h = Inl InvalidSnippetHeader) = (\<not> startsWith h ''snippet'') \<and>
   (\<not> isCode st \<and> \<not> startsWith line ''#'' \<and> \<not> startsWith line ''global'' \<and>
    \<not> startsWith line ''priority '' \<and> \<not> startsWith line ''context '' \<and>
    \<not> startsWith line ''snippet'' \<longrightarrow>
      parse_loop regexp_ok inexact (line # lines) st = parse_loop regexp_ok inexact lines st) \<and>
   (backtick \<notin> set r \<longrightarrow>
      (\<exists>hdr. parseSnippetHeader regexp_ok (''snippet '' @ backtick # r) = Inr hdr \<and>
         trigger hdr = Literal (backtick # takeWhile (\<lambda>c. \<not> isWhiteSpace c) r)))"
proof (intro conjI impI)
  show "parse regexp_ok inexact require executionFunction content \<noteq> Inl InvalidSnippetHeader"
    by (auto simp: parse_def parse_loop_not_invalid make_snippets_not_invalid split: sum.splits)
  show "(parseSnippetHeader regexp_ok h = Inl InvalidSnippetHeader) = (\<not> startsWith h ''snippet'')"
    by (rule parseSnippetHeader_invalid)
next
  assume "\<not> isCode st \<and> \<not> startsWith line ''#'' \<and> \<not> startsWith line ''global'' \<and>
    \<not> startsWith line ''priority '' \<and> \<not> startsWith line ''context '' \<and>
    \<not> startsWith line ''snippet''"
  then show "parse_loop regexp_ok inexact (line # lines) st = parse_loop regexp_ok inexact lines st"
    by (simp add: HEADER_REGEXP_exec_None)
next
  assume "backtick \<notin> set r"
  then show "\<exists>hdr. parseSnippetHeader regexp_ok (''snippet '' @ backtick # r) = Inr hdr \<and>
         trigger hdr = Literal (backtick # takeWhile (\<lambda>c. \<not> isWhiteSpace c) r)"
    by (rule unbalanced_backtick_header)
qed

text \<open>
  The line \<^verbatim>\<open>snipet foo\<close>, with the keyword misspelt, and the header
  \<^verbatim>\<open>snippet `abc "desc"\<close>.
\<close>

theorem C3_witness:
  \<open>parse_loop (\<lambda>p. True) (\<lambda>s. Priority 0) [''snipet foo''] initial_state = Inr initial_state \<and>
   map_sum id trigger (parseSnippetHeader (\<lambda>p. True) ''snippet `abc "desc"'') = Inr (Literal ''`abc'')\<close>
proof -
  have 1: "\<not> isCode initial_state \<and> \<not> startsWith ''snipet foo'' ''#'' \<and>
      \<not> startsWith ''snipet foo'' ''global'' \<and> \<not> startsWith ''snipet foo'' ''priority '' \<and>
      \<not> startsWith ''snipet foo'' ''context '' \<and> \<not> startsWith ''snipet foo'' ''snippet''"
    by (simp add: initial_state_def startsWith_def)
  have 2: \<open>backtick \<notin> set ''abc "desc"''\<close>
    by (simp add: backtick_def)
  have 3: \<open>''snippet '' @ backtick # ''abc "desc"'' = ''snippet `abc "desc"''\<close>
    by (simp add: backtick_def)
  have 4: \<open>backtick # takeWhile (\<lambda>c. \<not> isWhiteSpace c) ''abc "desc"'' = ''`abc''\<close>
    by (simp add: backtick_def isWhiteSpace_def)
  note t = C3_no_header_error [where st = initial_state and line = "''snipet foo''" and lines = "[]"
      and regexp_ok = "\<lambda>p. True" and inexact = "\<lambda>s. Priority 0" and r = \<open>''abc "desc"''\<close>]
  from t 1 have "parse_loop (\<lambda>p. True) (\<lambda>s. Priority 0) [''snipet foo''] initial_state =
      parse_loop (\<lambda>p. True) (\<lambda>s. Priority 0) [] initial_state"
    by blast
  then have a: "parse_loop (\<lambda>p. True) (\<lambda>s. Priority 0) [''snipet foo''] initial_state =
      Inr initial_state"
    by (simp only: parse_loop.simps(1))
  from t 2 have \<open>\<exists>hdr. parseSnippetHeader (\<lambda>p. True) (''snippet '' @ backtick # ''abc "desc"'') = Inr hdr \<and>
         trigger hdr = Literal (backtick # takeWhile (\<lambda>c. \<not> isWhiteSpace c) ''abc "desc"'')\<close>
    by blast
  then have b: \<open>map_sum id trigger (parseSnippetHeader (\<lambda>p. True) ''snippet `abc "desc"'') =
      Inr (Literal ''`abc'')\<close>
    unfolding 3 4 by auto
  from a b show ?thesis by (rule conjI)
qed

text \<open>
  C3 as stated fails at a header with an unbalanced backtick group: the file
  \<^verbatim>\<open>snippet `abc "desc"\<close>, \<^verbatim>\<open>hello\<close>, \<^verbatim>\<open>endsnippet\<close>. The header parses, with the
  backtick text as a literal trigger, and with an execution that returns one generator
  the file compiles to one snippet.
\<close>

theorem C3_unbalanced_backtick_compiles:
  \<open>parseSnippetHeader (\<lambda>p. True) ''snippet `abc "desc"'' =
     Inr \<lparr>trigger = Literal ''`abc'', description = ''desc'', flags = [], priority = None\<rparr> \<and>
   parse (\<lambda>p. True) (\<lambda>s. Priority 0) (\<lambda>n. Inl () :: unit + unit)
     (\<lambda>req s. Inr [\<lparr>result_contextFilter = None :: unit option, result_generatorFunction = ()\<rparr>])
     (''snippet `abc "desc"'' @ [LF] @ ''hello'' @ [LF] @ ''endsnippet'') =
   Inr [\<lparr>snippet_header =
           \<lparr>trigger = Literal ''`abc'', description = ''desc'', flags = [],
              priority = Some (Priority 0)\<rparr>,
         snippet_generatorFunction = (), snippet_contextFilter = None\<rparr>]\<close>
  by code_simp

text \<open>
  A line with the keyword misspelt is skipped with the lines after it, and
  \<^verbatim>\<open>snippet "desc"\<close> is a header whose literal trigger is the quoted text. A header
  whose pattern the host rejects ends the compilation of the file.
\<close>

lemma missing_keyword_is_skipped:
  \<open>parse (\<lambda>p. True) (\<lambda>s. Priority 0) (\<lambda>n. Inl () :: unit + unit)
     (\<lambda>req s. Inr [\<lparr>result_contextFilter = None :: unit option, result_generatorFunction = ()\<rparr>])
     (''snipet foo'' @ [LF] @ ''hello'' @ [LF] @ ''endsnippet'' @ [LF] @
      ''snippet "desc"'' @ [LF] @ ''x'' @ [LF] @ ''endsnippet'') =
   Inr [\<lparr>snippet_header =
           \<lparr>trigger = Literal ([dquote] @ ''desc'' @ [dquote]), description = [], flags = [],
              priority = Some (Priority 0)\<rparr>,
         snippet_generatorFunction = (), snippet_contextFilter = None\<rparr>]\<close>
  by code_simp

lemma rejected_pattern_aborts:
  \<open>parse (\<lambda>p. p \<noteq> ''($'') (\<lambda>s. Priority 0) (\<lambda>n. Inl () :: unit + unit)
     (\<lambda>req s. Inr [\<lparr>result_contextFilter = None :: unit option, result_generatorFunction = ()\<rparr>])
     (''snippet a'' @ [LF] @ ''x'' @ [LF] @ ''endsnippet'' @ [LF] @
      ''snippet `(`'' @ [LF] @ ''y'' @ [LF] @ ''endsnippet'') =
   Inl (RegExpSyntaxError ''($'')\<close>
  by code_simp

subsection \<open>The delimiter in a body line\<close>

lemma split_first_match:
  assumes "CODE_DELIMITER_REGEX_at s"
    and "\<forall>i<length pre. \<not> CODE_DELIMITER_REGEX_at (drop i (pre @ s))"
  shows "split_CODE_DELIMITER_REGEX (pre @ s) = (pre, case_prod (#) (split_CODE_DELIMITER_REGEX (drop 2 s)))"
  using assms(2)
proof (induction pre)
  case Nil
  from assms(1) obtain a b r where "s = a # b # r"
    by (cases s rule: CODE_DELIMITER_REGEX_at.cases) auto
  with assms(1) show ?case by (simp split: prod.splits)
next
  case (Cons c pre)
  from Cons.prems have no: "\<not> CODE_DELIMITER_REGEX_at (c # pre @ s)"
    by (metis append_Cons drop0 length_greater_0_conv list.discI)
  have "\<forall>i<length pre. \<not> CODE_DELIMITER_REGEX_at (drop i (pre @ s))"
  proof (intro allI impI)
    fix i assume "i < length pre"
    then have "Suc i < length (c # pre)" by simp
    with Cons.prems have "\<not> CODE_DELIMITER_REGEX_at (drop (Suc i) ((c # pre) @ s))" by blast
    then show "\<not> CODE_DELIMITER_REGEX_at (drop i (pre @ s))" by simp
  qed
  from Cons.IH [OF this] no show ?case by simp
qed

lemma includes_str_iff_match:
  "includes_str s CODE_DELIMITER = (\<exists>i<length s. CODE_DELIMITER_REGEX_at (drop i s))"
proof
  show "includes_str s CODE_DELIMITER \<Longrightarrow> \<exists>i<length s. CODE_DELIMITER_REGEX_at (drop i s)"
  proof (induction s)
    case Nil
    then show ?case by (simp add: CODE_DELIMITER_def)
  next
    case (Cons c cs)
    show ?case
    proof (cases "includes_str cs CODE_DELIMITER")
      case True
      from Cons.IH [OF True] obtain i where "i < length cs" "CODE_DELIMITER_REGEX_at (drop i cs)"
        by blast
      then have "Suc i < length (c # cs)" "CODE_DELIMITER_REGEX_at (drop (Suc i) (c # cs))"
        by simp_all
      then show ?thesis by blast
    next
      case False
      with Cons.prems have sw: "startsWith (c # cs) CODE_DELIMITER" by simp
      then obtain r where cs: "cs = backtick # r" and c: "c = backtick"
        by (cases cs) (auto simp: startsWith_def CODE_DELIMITER_def)
      from False cs have "\<not> startsWith (backtick # r) CODE_DELIMITER" by simp
      then have "case r of [] \<Rightarrow> True | d # _ \<Rightarrow> d \<noteq> backtick"
        by (cases r) (auto simp: startsWith_def CODE_DELIMITER_def)
      with cs c have "CODE_DELIMITER_REGEX_at (drop 0 (c # cs))" by simp
      then show ?thesis by blast
    qed
  qed
next
  assume "\<exists>i<length s. CODE_DELIMITER_REGEX_at (drop i s)"
  then obtain i where "CODE_DELIMITER_REGEX_at (drop i s)" by blast
  then show "includes_str s CODE_DELIMITER"
  proof (induction s arbitrary: i)
    case Nil
    then show ?case by simp
  next
    case (Cons c cs)
    show ?case
    proof (cases i)
      case 0
      with Cons.prems have "CODE_DELIMITER_REGEX_at (c # cs)" by simp
      then have "startsWith (c # cs) CODE_DELIMITER"
        by (cases cs) (auto simp: startsWith_def CODE_DELIMITER_def)
      then show ?thesis by simp
    next
      case (Suc j)
      with Cons.prems have "CODE_DELIMITER_REGEX_at (drop j cs)" by simp
      from Cons.IH [OF this] show ?thesis by simp
    qed
  qed
qed




subsection \<open>Pattern triggers\<close>

lemma endsWith_iff: "endsWith s p = (\<exists>pre. s = pre @ p)"
proof
  assume "endsWith s p"
  then have "s = take (length s - length p) s @ p"
    by (metis append_take_drop_id endsWith_def)
  then show "\<exists>pre. s = pre @ p" ..
next
  assume "\<exists>pre. s = pre @ p"
  then show "endsWith s p" by (auto simp: endsWith_def)
qed

lemma trigger_group_pattern:
  assumes "p \<noteq> []" and "backtick \<notin> set p"
  shows "trigger_group (backtick # p @ backtick # rest) = (Some p, None, rest)"
proof -
  have "takeWhile (\<lambda>c. c \<noteq> backtick) (p @ backtick # rest) = p"
    using assms(2) by (induction p) auto
  moreover have "dropWhile (\<lambda>c. c \<noteq> backtick) (p @ backtick # rest) = backtick # rest"
    using assms(2) by (induction p) auto
  ultimately show ?thesis using assms(1) by (simp add: trigger_group_def)
qed

lemma HEADER_REGEXP_exec_pattern:
  assumes "p \<noteq> []" and "backtick \<notin> set p" and "sp = [] \<or> sp = '' ''"
  shows "\<exists>m. HEADER_REGEXP_exec (''snippet'' @ sp @ [backtick] @ p @ [backtick] @ rest) = Some m
           \<and> group1 m = Some p"
proof -
  have nb: "backtick \<noteq> CHR '' ''" by (simp add: backtick_def)
  from assms(3) show ?thesis
  proof
    assume "sp = []"
    then show ?thesis
      using trigger_group_pattern [OF assms(1,2), of rest] nb
      by (simp add: HEADER_REGEXP_exec_def startsWith_def Let_def split: prod.splits)
  next
    assume "sp = '' ''"
    then show ?thesis
      using trigger_group_pattern [OF assms(1,2), of rest] nb
      by (simp add: HEADER_REGEXP_exec_def startsWith_def Let_def split: prod.splits)
  qed
qed

text \<open>
  A header whose trigger is the backtick-delimited pattern \<open>p\<close> (not empty, no
  backtick in it; the blank after the keyword is optional, anything may follow the
  closing backtick) gives the \<^verbatim>\<open>RegExp\<close> built from \<open>src\<close> with the flag \<^verbatim>\<open>m\<close>, or the
  constructor's error when the host rejects \<open>src\<close>. The text \<open>src\<close> ends in the character
  \<^verbatim>\<open>$\<close>: it is \<open>p\<close> itself when the text of \<open>p\<close> ends in \<^verbatim>\<open>$\<close>, and otherwise \<open>p\<close> with
  one \<^verbatim>\<open>$\<close> appended, which then does not end in \<^verbatim>\<open>$$\<close>.
\<close>

lemma pattern_source:
  assumes "p \<noteq> []" and "backtick \<notin> set p" and "sp = [] \<or> sp = '' ''"
  shows "let src = (if endsWith p ''$'' then p else p @ ''$'') in
           (case parseSnippetHeader regexp_ok (''snippet'' @ sp @ [backtick] @ p @ [backtick] @ rest) of
              Inr h \<Rightarrow> regexp_ok src \<and> trigger h = RegExp src ''m''
            | Inl e \<Rightarrow> \<not> regexp_ok src \<and> e = RegExpSyntaxError src) \<and>
           endsWith src ''$'' \<and>
           (endsWith p ''$'' \<longrightarrow> src = p) \<and>
           (\<not> endsWith p ''$'' \<longrightarrow> src = p @ ''$'' \<and> \<not> endsWith src ''$$'')"
proof -
  from HEADER_REGEXP_exec_pattern [OF assms, of rest] obtain m where
    m: "HEADER_REGEXP_exec (''snippet'' @ sp @ [backtick] @ p @ [backtick] @ rest) = Some m"
      "group1 m = Some p" by blast
  have 1: "endsWith (p @ ''$'') ''$''" by (simp add: endsWith_def)
  have 2: "\<not> endsWith (p @ ''$'') ''$$''" if "\<not> endsWith p ''$''"
  proof
    assume "endsWith (p @ ''$'') ''$$''"
    then obtain pre where "p @ ''$'' = pre @ ''$$''" unfolding endsWith_iff by blast
    then have "p = pre @ ''$''" by simp
    with that show False unfolding endsWith_iff by blast
  qed
  show ?thesis
    using m assms(1) 1 2 by (auto simp: parseSnippetHeader_def Let_def)
qed

text \<open>The headers \<^verbatim>\<open>snippet `ab` "d" w\<close> and \<^verbatim>\<open>snippet`a$`\<close>.\<close>

lemma pattern_source_examples:
  \<open>map_sum id trigger (parseSnippetHeader (\<lambda>p. True) ''snippet `ab` "d" w'') = Inr (RegExp ''ab$'' ''m'') \<and>
   map_sum id trigger (parseSnippetHeader (\<lambda>p. True) ''snippet`a$`'') = Inr (RegExp ''a$'' ''m'')\<close>
  by code_simp

text \<open>
  C5. The test of the code is on the last character of the pattern's text, and a
  dollar sign after a backslash is a literal dollar sign, not the line-end anchor.
  The pattern made of \<^verbatim>\<open>a\<close>, a backslash and a dollar sign does not end in the anchor, and
  nothing is appended to it. To the pattern made of \<^verbatim>\<open>a\<close> and a backslash the dollar
  sign is appended right after the backslash, which escapes it. Both give a
  \<^verbatim>\<open>RegExp\<close> whose source is \<^verbatim>\<open>a\<close>, a backslash and a dollar sign, with no anchor at
  its end. To the pattern made of \<^verbatim>\<open>a\<close> and two backslashes, which does not end in the
  anchor either, the anchor is appended.
\<close>

theorem C5_escaped_dollar_not_anchored:
  "map_sum id trigger (parseSnippetHeader (\<lambda>p. True) (''snippet `a'' @ [backslash] @ ''$`'')) =
     Inr (RegExp (''a'' @ [backslash] @ ''$'') ''m'') \<and>
   map_sum id trigger (parseSnippetHeader (\<lambda>p. True) (''snippet `a'' @ [backslash] @ ''`'')) =
     Inr (RegExp (''a'' @ [backslash] @ ''$'') ''m'') \<and>
   map_sum id trigger (parseSnippetHeader (\<lambda>p. True) (''snippet `a'' @ [backslash, backslash] @ ''`'')) =
     Inr (RegExp (''a'' @ [backslash, backslash] @ ''$'') ''m'')"
  by code_simp

subsection \<open>Failure of the execution\<close>

lemma enrich_keeps_message:
  "\<exists>explanation. enrich errorMessage = explanation @ errorMessage \<and>
     (explanation = []) =
       (\<not> includes_str errorMessage ''has already been declared'' \<and>
        \<not> includes_str errorMessage ''Cannot read properties of undefined'' \<and>
        \<not> includes_str errorMessage ''is not defined'')"
proof (cases "includes_str errorMessage ''has already been declared''")
  case True
  then show ?thesis by (simp add: enrich_def)
next
  case a: False
  show ?thesis
  proof (cases "includes_str errorMessage ''Cannot read properties of undefined''")
    case True
    with a show ?thesis by (simp add: enrich_def)
  next
    case b: False
    show ?thesis
    proof (cases "includes_str errorMessage ''is not defined''")
      case True
      with a b show ?thesis by (simp add: enrich_def)
    next
      case False
      with a b show ?thesis by (simp add: enrich_def)
    qed
  qed
qed

text \<open>
  C8. When the execution of the assembled script fails with the message
  \<open>errorMessage\<close>, \<^verbatim>\<open>parse\<close> raises the error \<^verbatim>\<open>Failed to parse snippet code: ...\<close> and
  returns no snippet. Its message ends in the raw message, and an explanation stands
  before it exactly when the raw message holds one of the three texts looked for:
  \<^verbatim>\<open>has already been declared\<close>, \<^verbatim>\<open>Cannot read properties of undefined\<close>,
  \<^verbatim>\<open>is not defined\<close>.
\<close>

theorem C8_execution_failure:
  assumes "parse_loop regexp_ok inexact (split_lines content) initial_state = Inr st"
    and "executionFunction (safeRequire require) (wrappedScript st) = Inl errorMessage"
  shows "parse regexp_ok inexact require executionFunction content =
           Inl (FailedToParseSnippetCode (''Failed to parse snippet code: '' @ enrich errorMessage)) \<and>
         (\<exists>explanation. enrich errorMessage = explanation @ errorMessage \<and>
            (explanation = []) =
              (\<not> includes_str errorMessage ''has already been declared'' \<and>
               \<not> includes_str errorMessage ''Cannot read properties of undefined'' \<and>
               \<not> includes_str errorMessage ''is not defined''))"
  using assms enrich_keeps_message [of errorMessage] by (simp add: parse_def)

lemma redeclaring_preamble_state: "parse_loop (\<lambda>p. True) (\<lambda>s. Priority 0) (split_lines (''global'' @ [LF] @ ''let a; let a;'' @ [LF] @ ''endglobal'')) initial_state
   = Inr (initial_state\<lparr>script := [''let a; let a;'']\<rparr>)"
  by code_simp

lemma enrich_redeclaration: "enrich ''Identifier 'a' has already been declared'' = 
   ''Variable redeclaration detected in global block. Please check for duplicate variable declarations like 'let', 'const', or 'var' statements. Original error: Identifier 'a' has already been declared''"
  by code_simp

text \<open>A preamble that declares \<^verbatim>\<open>a\<close> twice, with the message of the host for it.\<close>

theorem C8_witness:
  "parse (\<lambda>p. True) (\<lambda>s. Priority 0) (\<lambda>n. Inl () :: unit + unit)
     (\<lambda>req s. Inl ''Identifier 'a' has already been declared'' :: string + (unit, unit) parseResult list)
     (''global'' @ [LF] @ ''let a; let a;'' @ [LF] @ ''endglobal'') =
   Inl (FailedToParseSnippetCode (''Failed to parse snippet code: Variable redeclaration detected in global block. Please check for duplicate variable declarations like 'let', 'const', or 'var' statements. Original error: Identifier 'a' has already been declared''))"
proof -
  let ?f = "\<lambda>(req :: string \<Rightarrow> unit option \<times> (string \<times> unit) list) (s :: string).
      Inl ''Identifier 'a' has already been declared'' :: string + (unit, unit) parseResult list"
  have e: "?f (safeRequire (\<lambda>n. Inl ())) (wrappedScript (initial_state\<lparr>script := [''let a; let a;'']\<rparr>)) =
             Inl ''Identifier 'a' has already been declared''"
    by simp
  from C8_execution_failure [OF redeclaring_preamble_state e]
  have "parse (\<lambda>p. True) (\<lambda>s. Priority 0) (\<lambda>n. Inl ()) ?f
          (''global'' @ [LF] @ ''let a; let a;'' @ [LF] @ ''endglobal'') =
          Inl (FailedToParseSnippetCode (''Failed to parse snippet code: '' @
            enrich ''Identifier 'a' has already been declared''))"
    by (rule conjunct1)
  then show ?thesis unfolding enrich_redeclaration by simp
qed

subsection \<open>Module resolution\<close>

lemma make_snippets_enough:
  "length ss \<le> length gs \<Longrightarrow>
     \<exists>hs. make_snippets i ss gs = Inr hs \<and> map snippet_header hs = map header ss"
proof (induction i ss gs rule: make_snippets.induct)
  case (3 i s ss g gs)
  then obtain hs where "make_snippets (Suc i) ss gs = Inr hs" "map snippet_header hs = map header ss"
    by auto
  then show ?case by simp
qed simp_all

text \<open>
  C9. When \<^verbatim>\<open>require\<close> throws for a module name, the function bound to \<^verbatim>\<open>require\<close> in
  the executed script throws nothing: it returns \<^verbatim>\<open>null\<close> and logs one warning, which
  names the module and carries the error. The result of \<^verbatim>\<open>parse\<close> is then that of the
  execution of the script with this function: the error of the execution when it fails,
  and when it returns at least as many generators as the file has snippets, the
  snippets of the file, one for each declaration.
\<close>

theorem C9_safeRequire_for_the_script:
  assumes "require moduleName = Inl error"
    and "parse_loop regexp_ok inexact (split_lines content) initial_state = Inr st"
  shows "safeRequire require moduleName =
           (None, [(''[HSnips] Could not require module '' @ [CHR 0x27] @ moduleName @ [CHR 0x27] @ '':'', error)]) \<and>
         parse regexp_ok inexact require executionFunction content =
           (case executionFunction (safeRequire require) (wrappedScript st) of
              Inl errorMessage \<Rightarrow>
                Inl (FailedToParseSnippetCode (''Failed to parse snippet code: '' @ enrich errorMessage))
            | Inr generators \<Rightarrow> make_snippets 0 (snippetInfos st) generators) \<and>
         (\<forall>generators.
            executionFunction (safeRequire require) (wrappedScript st) = Inr generators \<and>
            length (snippetInfos st) \<le> length generators \<longrightarrow>
            (\<exists>snippets. parse regexp_ok inexact require executionFunction content = Inr snippets \<and>
               map snippet_header snippets = map header (snippetInfos st)))"
proof (intro conjI allI impI)
  show "safeRequire require moduleName =
           (None, [(''[HSnips] Could not require module '' @ [CHR 0x27] @ moduleName @ [CHR 0x27] @ '':'', error)])"
    using assms(1) by (simp add: safeRequire_def)
next
  show "parse regexp_ok inexact require executionFunction content =
           (case executionFunction (safeRequire require) (wrappedScript st) of
              Inl errorMessage \<Rightarrow>
                Inl (FailedToParseSnippetCode (''Failed to parse snippet code: '' @ enrich errorMessage))
            | Inr generators \<Rightarrow> make_snippets 0 (snippetInfos st) generators)"
    using assms(2) by (simp add: parse_def)
next
  fix generators
  assume g: "executionFunction (safeRequire require) (wrappedScript st) = Inr generators \<and>
            length (snippetInfos st) \<le> length generators"
  from make_snippets_enough [of "snippetInfos st" generators 0] g
  obtain hs where "make_snippets 0 (snippetInfos st) generators = Inr hs"
    "map snippet_header hs = map header (snippetInfos st)" by blast
  then show "\<exists>snippets. parse regexp_ok inexact require executionFunction content = Inr snippets \<and>
               map snippet_header snippets = map header (snippetInfos st)"
    using assms(2) g by (simp add: parse_def)
qed

lemma optional_module_state:
  "parse_loop (\<lambda>p. True) (\<lambda>s. Priority 0)
     (split_lines (''global'' @ [LF] @ ''const vscode = require('vscode');'' @ [LF] @ ''endglobal'' @ [LF] @
        ''snippet a'' @ [LF] @ ''x'' @ [LF] @ ''endsnippet'')) initial_state =
   Inr (initial_state\<lparr>snippetInfos :=
       [\<lparr>body = join [LF] [FUNCTION_HEAD, LET_RV, LET_RESULT, LET_BLOCKRESULTS,
            push_text ''x'', RETURN, ''}''],
         contextFilter = None,
         header = \<lparr>trigger = Literal ''a'', description = [], flags = [],
                     priority = Some (Priority 0)\<rparr>\<rparr>],
       script := [''const vscode = require('vscode');'']\<rparr>)"
  by code_simp

text \<open>
  A host without the module \<^verbatim>\<open>vscode\<close>, and a file whose preamble asks for it and does
  not use it; the execution returns the one generator.
\<close>

theorem C9_witness:
  "safeRequire (\<lambda>n. Inl ''Cannot find module'' :: string + unit) ''vscode'' =
     (None, [(''[HSnips] Could not require module '' @ [CHR 0x27] @ ''vscode'' @ [CHR 0x27] @ '':'',
              ''Cannot find module'')]) \<and>
   parse (\<lambda>p. True) (\<lambda>s. Priority 0) (\<lambda>n. Inl ''Cannot find module'' :: string + unit)
     (\<lambda>req s. Inr [\<lparr>result_contextFilter = None :: unit option, result_generatorFunction = ()\<rparr>])
     (''global'' @ [LF] @ ''const vscode = require('vscode');'' @ [LF] @ ''endglobal'' @ [LF] @
        ''snippet a'' @ [LF] @ ''x'' @ [LF] @ ''endsnippet'') =
     Inr [\<lparr>snippet_header = \<lparr>trigger = Literal ''a'', description = [], flags = [],
                               priority = Some (Priority 0)\<rparr>,
           snippet_generatorFunction = (), snippet_contextFilter = None\<rparr>]"
proof -
  let ?require = "\<lambda>n :: string. Inl ''Cannot find module'' :: string + unit"
  let ?one = "\<lambda>(req :: string \<Rightarrow> unit option \<times> (string \<times> string) list) (s :: string).
      Inr [\<lparr>result_contextFilter = None :: unit option, result_generatorFunction = ()\<rparr>]
        :: string + (unit, unit) parseResult list"
  note t = C9_safeRequire_for_the_script [where require = ?require and moduleName = "''vscode''"
      and executionFunction = ?one, OF refl optional_module_state]
  from conjunct1 [OF t] conjunct1 [OF conjunct2 [OF t]] show ?thesis by simp
qed

text \<open>
  C9 as stated fails when the script uses what it asked for. The preamble
  \<^verbatim>\<open>const vscode = require('vscode');\<close> \<^verbatim>\<open>const w = vscode.window;\<close> reads a property of
  \<^verbatim>\<open>null\<close> when the module is not there: the execution throws, and \<^verbatim>\<open>parse\<close> fails for
  the file with its two snippets, which do not use the module. With the module the same
  file gives its two snippets.
\<close>

theorem C9_unavailable_module_fails_the_file:
  "parse (\<lambda>p. True) (\<lambda>s. Priority 0) (\<lambda>n. Inl ''Cannot find module'' :: string + unit)
     (\<lambda>req s.
        if startsWith s (''const vscode = require('vscode');'' @ [LF] @ ''const w = vscode.window;'' @ [LF])
        then (case fst (req ''vscode'') of
                None \<Rightarrow> Inl ''Cannot read properties of null (reading 'window')''
              | Some m \<Rightarrow> Inr (replicate 2 \<lparr>result_contextFilter = None :: unit option,
                                               result_generatorFunction = ()\<rparr>))
        else Inr [])
     (''global'' @ [LF] @ ''const vscode = require('vscode');'' @ [LF] @ ''const w = vscode.window;'' @ [LF] @
      ''endglobal'' @ [LF] @ ''snippet a'' @ [LF] @ ''x'' @ [LF] @ ''endsnippet'' @ [LF] @
      ''snippet b'' @ [LF] @ ''y'' @ [LF] @ ''endsnippet'') =
     Inl (FailedToParseSnippetCode
            ''Failed to parse snippet code: Cannot read properties of null (reading 'window')'') \<and>
   map_sum id (map (trigger \<circ> snippet_header))
    (parse (\<lambda>p. True) (\<lambda>s. Priority 0) (\<lambda>n. Inr () :: string + unit)
     (\<lambda>req s.
        if startsWith s (''const vscode = require('vscode');'' @ [LF] @ ''const w = vscode.window;'' @ [LF])
        then (case fst (req ''vscode'') of
                None \<Rightarrow> Inl ''Cannot read properties of null (reading 'window')''
              | Some m \<Rightarrow> Inr (replicate 2 \<lparr>result_contextFilter = None :: unit option,
                                               result_generatorFunction = ()\<rparr>))
        else Inr [])
     (''global'' @ [LF] @ ''const vscode = require('vscode');'' @ [LF] @ ''const w = vscode.window;'' @ [LF] @
      ''endglobal'' @ [LF] @ ''snippet a'' @ [LF] @ ''x'' @ [LF] @ ''endsnippet'' @ [LF] @
      ''snippet b'' @ [LF] @ ''y'' @ [LF] @ ''endsnippet'')) =
     Inr [Literal ''a'', Literal ''b'']"
  by code_simp

subsection \<open>Priority and context directives\<close>







text \<open>
  The value of a directive: \<^verbatim>\<open>Number(text) || 0\<close>. A text that is no numeric literal
  gives 0, and the literal may be hexadecimal or have an exponent.
\<close>

lemma priority_values:
  "Number_or_0 inexact (trim '' 5 '') = Priority 5"
  "Number_or_0 inexact (trim ''abc'') = Priority 0"
  "Number_or_0 inexact (trim ''0x10'') = Priority 16"
  "Number_or_0 inexact (trim ''1e1'') = Priority 10"
  "Number_or_0 inexact (trim ''-3'') = Priority (- 3)"
  "Number_or_0 inexact (trim []) = Priority 0"
  "Number_or_0 inexact (trim ''5.5'') = inexact ''5.5''"
  by (simp_all add: Number_or_0_def) code_simp+



text \<open>Three snippets, with \<^verbatim>\<open>priority 5\<close> between the first and the second.\<close>

lemma three_snippets_one_priority:
  "map (\<lambda>i. (trigger (header i), priority (header i)))
     (case parse_loop regexp_ok inexact
        [''snippet a'', ''x'', ''endsnippet'', ''priority 5'', ''snippet b'', ''y'', ''endsnippet'',
         ''snippet c'', ''z'', ''endsnippet'']
        initial_state of Inr st \<Rightarrow> snippetInfos st | Inl e \<Rightarrow> []) =
   [(Literal ''a'', Some (Priority 0)), (Literal ''b'', Some (Priority 5)), (Literal ''c'', Some (Priority 0))]"
  by code_simp

subsection \<open>Missing terminators\<close>

lemma rest_after_first_match:
  assumes "includes_str line CODE_DELIMITER" and "split_CODE_DELIMITER_REGEX line = (p, ps)"
  shows "\<exists>i<length line. CODE_DELIMITER_REGEX_at (drop i line) \<and>
           join CODE_DELIMITER ps = drop (i + 2) line"
proof -
  let ?P = "\<lambda>i. i < length line \<and> CODE_DELIMITER_REGEX_at (drop i line)"
  define i where "i = (LEAST i. ?P i)"
  from assms(1) have ex: "\<exists>i. ?P i"
    unfolding includes_str_iff_match by blast
  then have i: "?P i" unfolding i_def by (rule LeastI_ex)
  have least: "\<not> ?P j" if "j < i" for j
    using that unfolding i_def by (rule not_less_Least)
  have len: "length (take i line) = i" using i by simp
  have "\<forall>j<length (take i line). \<not> CODE_DELIMITER_REGEX_at (drop j (take i line @ drop i line))"
    using least i by (simp add: len)
  from split_first_match [OF conjunct2 [OF i] this]
  have "split_CODE_DELIMITER_REGEX line =
          (take i line, case_prod (#) (split_CODE_DELIMITER_REGEX (drop 2 (drop i line))))"
    by simp
  with assms(2) have ps: "case_prod (#) (split_CODE_DELIMITER_REGEX (drop (i + 2) line)) = ps"
    by (simp add: add.commute)
  obtain q qs where q: "split_CODE_DELIMITER_REGEX (drop (i + 2) line) = (q, qs)"
    by (cases "split_CODE_DELIMITER_REGEX (drop (i + 2) line)")
  from join_split_CODE_DELIMITER_REGEX [OF q] ps q
  have "join CODE_DELIMITER ps = drop (i + 2) line" by auto
  with i show ?thesis by blast
qed

lemma parseSnippet_loop_to_the_end:
  assumes "\<forall>l\<in>set lines. \<not> startsWith l ''endsnippet'' \<and>
        (\<forall>i<length l. CODE_DELIMITER_REGEX_at (drop i l) \<longrightarrow>
           \<not> startsWith (drop (i + 2) l) ''endsnippet'')"
  shows "snd (parseSnippet_loop lines scr code) = []"
  using assms
proof (induction lines scr code rule: parseSnippet_loop.induct)
  case (1 scr code)
  show ?case by simp
next
  case (2 line lines scr code)
  obtain p ps where sp: "split_CODE_DELIMITER_REGEX line = (p, ps)"
    by (cases "split_CODE_DELIMITER_REGEX line")
  from "2.prems" have ns: "\<not> startsWith line ''endsnippet''"
    and after: "\<forall>i<length line. CODE_DELIMITER_REGEX_at (drop i line) \<longrightarrow>
           \<not> startsWith (drop (i + 2) line) ''endsnippet''"
    and rest: "\<forall>l\<in>set lines. \<not> startsWith l ''endsnippet'' \<and>
        (\<forall>i<length l. CODE_DELIMITER_REGEX_at (drop i l) \<longrightarrow>
           \<not> startsWith (drop (i + 2) l) ''endsnippet'')"
    by simp_all
  have pushed: "\<forall>l\<in>set (join CODE_DELIMITER ps # lines). \<not> startsWith l ''endsnippet'' \<and>
        (\<forall>i<length l. CODE_DELIMITER_REGEX_at (drop i l) \<longrightarrow>
           \<not> startsWith (drop (i + 2) l) ''endsnippet'')"
    if inc: "includes_str line CODE_DELIMITER"
  proof -
    from rest_after_first_match [OF inc sp] obtain i where
      i: "i < length line" "CODE_DELIMITER_REGEX_at (drop i line)"
        "join CODE_DELIMITER ps = drop (i + 2) line" by blast
    from after i have 1: "\<not> startsWith (join CODE_DELIMITER ps) ''endsnippet''" by simp
    have 2: "\<not> startsWith (drop (j + 2) (join CODE_DELIMITER ps)) ''endsnippet''"
      if "j < length (join CODE_DELIMITER ps)" "CODE_DELIMITER_REGEX_at (drop j (join CODE_DELIMITER ps))"
      for j
    proof -
      from that i(3) have "j + (i + 2) < length line"
        "CODE_DELIMITER_REGEX_at (drop (j + (i + 2)) line)" by simp_all
      with after have "\<not> startsWith (drop (j + (i + 2) + 2) line) ''endsnippet''" by blast
      then show ?thesis by (simp add: i(3) add.commute add.left_commute)
    qed
    from 1 2 rest show ?thesis by simp
  qed
  show ?case
  proof (cases code)
    case True
    show ?thesis
    proof (cases "includes_str line CODE_DELIMITER")
      case False
      with True "2.IH"(1) rest show ?thesis by simp
    next
      case inc: True
      from "2.IH"(2) [OF True _ sp [symmetric]] inc True sp pushed [OF inc] show ?thesis by simp
    qed
  next
    case False
    show ?thesis
    proof (cases "includes_str line CODE_DELIMITER")
      case inc: False
      with False ns "2.IH"(3) rest show ?thesis by simp
    next
      case inc: True
      from "2.IH"(4) [OF False ns _ sp [symmetric]] inc False ns sp pushed [OF inc] show ?thesis by simp
    qed
  qed
qed

lemma parse_loop_open_global:
  "isCode st \<Longrightarrow> \<forall>l\<in>set lines. \<not> startsWith l ''endglobal'' \<Longrightarrow>
   parse_loop regexp_ok inexact lines st = Inr (st\<lparr>script := script st @ lines\<rparr>)"
proof (induction lines arbitrary: st)
  case Nil
  then show ?case by simp
next
  case (Cons l lines)
  from Cons.prems have "isCode (st\<lparr>script := script st @ [l]\<rparr>)" by simp
  from Cons.IH [OF this] Cons.prems show ?case by simp
qed

lemma parse_loop_open_body:
  assumes "\<not> isCode st" and "parseSnippetHeader regexp_ok h = Inr hdr"
    and "\<forall>l\<in>set lines. \<not> startsWith l ''endsnippet'' \<and>
        (\<forall>i<length l. CODE_DELIMITER_REGEX_at (drop i l) \<longrightarrow>
           \<not> startsWith (drop (i + 2) l) ''endsnippet'')"
  shows "\<exists>info. parseSnippet regexp_ok h lines = Inr (info, []) \<and>
           parse_loop regexp_ok inexact (h # lines) st =
             Inr (st\<lparr>snippetInfos := snippetInfos st @
                       [info\<lparr>header := (header info)\<lparr>priority := Some (pending_priority st)\<rparr>,
                              contextFilter := pending_context st\<rparr>],
                     pending_priority := Priority 0,
                     pending_context := None\<rparr>)"
proof -
  from assms(2) have sn: "startsWith h ''snippet''"
    using parseSnippetHeader_invalid [of regexp_ok h] by auto
  obtain scr ls where l: "parseSnippet_loop lines [FUNCTION_HEAD, LET_RV, LET_RESULT, LET_BLOCKRESULTS] False = (scr, ls)"
    by (cases "parseSnippet_loop lines [FUNCTION_HEAD, LET_RV, LET_RESULT, LET_BLOCKRESULTS] False")
  with parseSnippet_loop_to_the_end [OF assms(3), of "[FUNCTION_HEAD, LET_RV, LET_RESULT, LET_BLOCKRESULTS]" False]
  have "ls = []" by simp
  with assms(2) l have p: "parseSnippet regexp_ok h lines =
      Inr (\<lparr>body = join [LF] (butlast scr @ [RETURN, ''}'']), contextFilter = None, header = hdr\<rparr>, [])"
    by (simp add: parseSnippet_def)
  show ?thesis
    using assms(1) p header_line_not_directive [OF sn] by simp
qed

text \<open>
  C10, as the code has it. The loops raise no error for a missing terminator. In a
  \<^verbatim>\<open>global\<close> block with no line that starts with \<^verbatim>\<open>endglobal\<close>, the loop of \<^verbatim>\<open>parse\<close>
  takes every remaining line into the preamble. After a declaration whose header
  parses, a body in which no line starts with \<^verbatim>\<open>endsnippet\<close> and \<^verbatim>\<open>endsnippet\<close> never
  follows a delimiter directly takes every remaining line. \<^verbatim>\<open>parse\<close> then returns what
  the execution of the assembled script gives, for a file that is such a block, and
  for one that is such a snippet: the swallowed lines are part of that script, and
  \<^verbatim>\<open>parse\<close> fails when the execution does.
\<close>

theorem C10_missing_terminators:
  "(isCode st \<and> (\<forall>l\<in>set lines. \<not> startsWith l ''endglobal'') \<longrightarrow>
      parse_loop regexp_ok inexact lines st = Inr (st\<lparr>script := script st @ lines\<rparr>)) \<and>
   (\<not> isCode st \<and> parseSnippetHeader regexp_ok h = Inr hdr \<and>
    (\<forall>l\<in>set lines. \<not> startsWith l ''endsnippet'' \<and>
        (\<forall>i<length l. CODE_DELIMITER_REGEX_at (drop i l) \<longrightarrow>
           \<not> startsWith (drop (i + 2) l) ''endsnippet'')) \<longrightarrow>
      (\<exists>info. parseSnippet regexp_ok h lines = Inr (info, []) \<and>
         parse_loop regexp_ok inexact (h # lines) st =
           Inr (st\<lparr>snippetInfos := snippetInfos st @
                     [info\<lparr>header := (header info)\<lparr>priority := Some (pending_priority st)\<rparr>,
                            contextFilter := pending_context st\<rparr>],
                   pending_priority := Priority 0,
                   pending_context := None\<rparr>))) \<and>
   (split_lines content = g # lines \<and> startsWith g ''global'' \<and>
    (\<forall>l\<in>set lines. \<not> startsWith l ''endglobal'') \<longrightarrow>
      parse regexp_ok inexact require executionFunction content =
        (case executionFunction (safeRequire require) (join [LF] (lines @ [''return ['', '']''])) of
           Inl errorMessage \<Rightarrow>
             Inl (FailedToParseSnippetCode (''Failed to parse snippet code: '' @ enrich errorMessage))
         | Inr generators \<Rightarrow> Inr [])) \<and>
   (split_lines content = h # lines \<and> parseSnippetHeader regexp_ok h = Inr hdr \<and>
    (\<forall>l\<in>set lines. \<not> startsWith l ''endsnippet'' \<and>
        (\<forall>i<length l. CODE_DELIMITER_REGEX_at (drop i l) \<longrightarrow>
           \<not> startsWith (drop (i + 2) l) ''endsnippet'')) \<longrightarrow>
      (\<exists>info. parseSnippet regexp_ok h lines = Inr (info, []) \<and>
         parse regexp_ok inexact require executionFunction content =
           (case executionFunction (safeRequire require)
                   (join [LF] [''return ['', ''{'', ''generatorFunction: '' @ body info, ''},'', '']'']) of
              Inl errorMessage \<Rightarrow>
                Inl (FailedToParseSnippetCode (''Failed to parse snippet code: '' @ enrich errorMessage))
            | Inr generators \<Rightarrow>
                make_snippets 0 [info\<lparr>header := (header info)\<lparr>priority := Some (Priority 0)\<rparr>\<rparr>]
                  generators)))"
proof (intro conjI impI)
  assume "isCode st \<and> (\<forall>l\<in>set lines. \<not> startsWith l ''endglobal'')"
  then show "parse_loop regexp_ok inexact lines st = Inr (st\<lparr>script := script st @ lines\<rparr>)"
    using parse_loop_open_global by blast
next
  assume "\<not> isCode st \<and> parseSnippetHeader regexp_ok h = Inr hdr \<and>
    (\<forall>l\<in>set lines. \<not> startsWith l ''endsnippet'' \<and>
        (\<forall>i<length l. CODE_DELIMITER_REGEX_at (drop i l) \<longrightarrow>
           \<not> startsWith (drop (i + 2) l) ''endsnippet''))"
  then show "\<exists>info. parseSnippet regexp_ok h lines = Inr (info, []) \<and>
         parse_loop regexp_ok inexact (h # lines) st =
           Inr (st\<lparr>snippetInfos := snippetInfos st @
                     [info\<lparr>header := (header info)\<lparr>priority := Some (pending_priority st)\<rparr>,
                            contextFilter := pending_context st\<rparr>],
                   pending_priority := Priority 0,
                   pending_context := None\<rparr>)"
    using parse_loop_open_body by blast
next
  assume a: "split_lines content = g # lines \<and> startsWith g ''global'' \<and>
    (\<forall>l\<in>set lines. \<not> startsWith l ''endglobal'')"
  then obtain t where g: "g = CHR ''g'' # t"
    by (cases g) (auto simp: startsWith_def)
  have "isCode (initial_state\<lparr>isCode := True\<rparr>)" by simp
  from parse_loop_open_global [OF this, of lines regexp_ok inexact] a
  have "parse_loop regexp_ok inexact (g # lines) initial_state =
          Inr (initial_state\<lparr>isCode := True, script := lines\<rparr>)"
    by (simp add: g startsWith_def initial_state_def)
  with a show "parse regexp_ok inexact require executionFunction content =
        (case executionFunction (safeRequire require) (join [LF] (lines @ [''return ['', '']''])) of
           Inl errorMessage \<Rightarrow>
             Inl (FailedToParseSnippetCode (''Failed to parse snippet code: '' @ enrich errorMessage))
         | Inr generators \<Rightarrow> Inr [])"
    by (simp add: parse_def wrappedScript_def initial_state_def split: sum.splits)
next
  assume a: "split_lines content = h # lines \<and> parseSnippetHeader regexp_ok h = Inr hdr \<and>
    (\<forall>l\<in>set lines. \<not> startsWith l ''endsnippet'' \<and>
        (\<forall>i<length l. CODE_DELIMITER_REGEX_at (drop i l) \<longrightarrow>
           \<not> startsWith (drop (i + 2) l) ''endsnippet''))"
  have "\<not> isCode initial_state" by (simp add: initial_state_def)
  from parse_loop_open_body [OF this, of regexp_ok h hdr lines inexact] a
  obtain info where i: "parseSnippet regexp_ok h lines = Inr (info, [])"
    "parse_loop regexp_ok inexact (h # lines) initial_state =
       Inr (initial_state\<lparr>snippetInfos := snippetInfos initial_state @
              [info\<lparr>header := (header info)\<lparr>priority := Some (pending_priority initial_state)\<rparr>,
                     contextFilter := pending_context initial_state\<rparr>],
            pending_priority := Priority 0, pending_context := None\<rparr>)"
    by blast
  from i(1) have c: "contextFilter info = None"
    by (auto simp: parseSnippet_def split: sum.splits prod.splits)
  then have u: "info\<lparr>header := (header info)\<lparr>priority := Some (Priority 0)\<rparr>, contextFilter := None\<rparr> =
      info\<lparr>header := (header info)\<lparr>priority := Some (Priority 0)\<rparr>\<rparr>"
    by simp
  have "parse regexp_ok inexact require executionFunction content =
           (case executionFunction (safeRequire require)
                   (join [LF] [''return ['', ''{'', ''generatorFunction: '' @ body info, ''},'', '']'']) of
              Inl errorMessage \<Rightarrow>
                Inl (FailedToParseSnippetCode (''Failed to parse snippet code: '' @ enrich errorMessage))
            | Inr generators \<Rightarrow>
                make_snippets 0 [info\<lparr>header := (header info)\<lparr>priority := Some (Priority 0)\<rparr>\<rparr>]
                  generators)"
  proof -
    from a i(2) u have "parse_loop regexp_ok inexact (split_lines content) initial_state =
        Inr \<lparr>snippetInfos = [info\<lparr>header := (header info)\<lparr>priority := Some (Priority 0)\<rparr>\<rparr>],
             script = [], isCode = False, pending_priority = Priority 0, pending_context = None\<rparr>"
      by (simp add: initial_state_def del: parse_loop.simps)
    then show ?thesis
      using c by (simp add: parse_def wrappedScript_def snippet_lines_def split: sum.splits)
  qed
  with i(1) show "\<exists>info. parseSnippet regexp_ok h lines = Inr (info, []) \<and>
         parse regexp_ok inexact require executionFunction content =
           (case executionFunction (safeRequire require)
                   (join [LF] [''return ['', ''{'', ''generatorFunction: '' @ body info, ''},'', '']'']) of
              Inl errorMessage \<Rightarrow>
                Inl (FailedToParseSnippetCode (''Failed to parse snippet code: '' @ enrich errorMessage))
            | Inr generators \<Rightarrow>
                make_snippets 0 [info\<lparr>header := (header info)\<lparr>priority := Some (Priority 0)\<rparr>\<rparr>]
                  generators)"
    by blast
qed

lemma unterminated_header:
  "parseSnippetHeader (\<lambda>p. True) ''snippet foo'' =
     Inr \<lparr>trigger = Literal ''foo'', description = [], flags = [], priority = None\<rparr>"
  by code_simp

lemma unterminated_body:
  "parseSnippet (\<lambda>p. True) ''snippet foo'' [''hello'', ''world''] =
     Inr (\<lparr>body = join [LF] [FUNCTION_HEAD, LET_RV, LET_RESULT, LET_BLOCKRESULTS,
              push_text ''hello'', PUSH_NEWLINE, push_text ''world'', RETURN, ''}''],
            contextFilter = None,
            header = \<lparr>trigger = Literal ''foo'', description = [], flags = [], priority = None\<rparr>\<rparr>, [])"
  by code_simp

lemma unterminated_files:
  "split_lines (''global'' @ [LF] @ ''let a = 1;'') = [''global'', ''let a = 1;'']"
  "split_lines (''snippet foo'' @ [LF] @ ''hello'' @ [LF] @ ''world'') = [''snippet foo'', ''hello'', ''world'']"
  by code_simp+

text \<open>
  An open \<^verbatim>\<open>global\<close> block, and the declaration \<^verbatim>\<open>snippet foo\<close> with the two body
  lines \<^verbatim>\<open>hello\<close> and \<^verbatim>\<open>world\<close>; as whole files, with an execution that accepts the
  preamble \<^verbatim>\<open>let a = 1;\<close> and one that returns the one generator.
\<close>

theorem C10_witness:
  "parse_loop (\<lambda>p. True) (\<lambda>s. Priority 0) [''let a = 1;'', ''let b = 2;'']
     (initial_state\<lparr>isCode := True\<rparr>) =
     Inr (initial_state\<lparr>isCode := True, script := [''let a = 1;'', ''let b = 2;'']\<rparr>) \<and>
   parse_loop (\<lambda>p. True) (\<lambda>s. Priority 0) [''snippet foo'', ''hello'', ''world''] initial_state =
     Inr (initial_state\<lparr>snippetInfos :=
       [\<lparr>body = join [LF] [FUNCTION_HEAD, LET_RV, LET_RESULT, LET_BLOCKRESULTS,
            push_text ''hello'', PUSH_NEWLINE, push_text ''world'', RETURN, ''}''],
         contextFilter = None,
         header = \<lparr>trigger = Literal ''foo'', description = [], flags = [],
                     priority = Some (Priority 0)\<rparr>\<rparr>]\<rparr>) \<and>
   parse (\<lambda>p. True) (\<lambda>s. Priority 0) (\<lambda>n. Inl () :: unit + unit)
     (\<lambda>req s. if s = join [LF] [''let a = 1;'', ''return ['', '']''] then Inr []
               else Inl ''not this script'' :: string + (unit, unit) parseResult list)
     (''global'' @ [LF] @ ''let a = 1;'') = Inr [] \<and>
   parse (\<lambda>p. True) (\<lambda>s. Priority 0) (\<lambda>n. Inl () :: unit + unit)
     (\<lambda>req s. Inr [\<lparr>result_contextFilter = None :: unit option, result_generatorFunction = ()\<rparr>])
     (''snippet foo'' @ [LF] @ ''hello'' @ [LF] @ ''world'') =
     Inr [\<lparr>snippet_header = \<lparr>trigger = Literal ''foo'', description = [], flags = [],
                               priority = Some (Priority 0)\<rparr>,
           snippet_generatorFunction = (), snippet_contextFilter = None\<rparr>]"
proof -
  let ?hdr = "\<lparr>trigger = Literal ''foo'', description = [], flags = [], priority = None\<rparr>"
  let ?accept = "\<lambda>(req :: string \<Rightarrow> unit option \<times> (string \<times> unit) list) s.
      if s = join [LF] [''let a = 1;'', ''return ['', '']''] then Inr []
      else Inl ''not this script'' :: string + (unit, unit) parseResult list"
  let ?one = "\<lambda>(req :: string \<Rightarrow> unit option \<times> (string \<times> unit) list) (s :: string).
      Inr [\<lparr>result_contextFilter = None :: unit option, result_generatorFunction = ()\<rparr>]
        :: string + (unit, unit) parseResult list"
  have g: "\<forall>l\<in>set [''let a = 1;'', ''let b = 2;'']. \<not> startsWith l ''endglobal''"
    "\<forall>l\<in>set [''let a = 1;'']. \<not> startsWith l ''endglobal''"
    "startsWith ''global'' ''global''"
    by (simp_all add: startsWith_def)
  have b: "\<forall>l\<in>set [''hello'', ''world'']. \<not> startsWith l ''endsnippet'' \<and>
        (\<forall>i<length l. CODE_DELIMITER_REGEX_at (drop i l) \<longrightarrow>
           \<not> startsWith (drop (i + 2) l) ''endsnippet'')"
    by (simp add: startsWith_def backtick_def less_Suc_eq)
  have i: "isCode (initial_state\<lparr>isCode := True\<rparr>)" "\<not> isCode initial_state"
    by (simp_all add: initial_state_def)
  note t = C10_missing_terminators [where regexp_ok = "\<lambda>p. True" and inexact = "\<lambda>s. Priority 0"
      and require = "\<lambda>n. Inl () :: unit + unit"]
  from conjunct1 [OF t [where st = "initial_state\<lparr>isCode := True\<rparr>"
        and lines = "[''let a = 1;'', ''let b = 2;'']"]] g(1) i(1)
  have 1: "parse_loop (\<lambda>p. True) (\<lambda>s. Priority 0) [''let a = 1;'', ''let b = 2;'']
     (initial_state\<lparr>isCode := True\<rparr>) =
     Inr (initial_state\<lparr>isCode := True, script := [''let a = 1;'', ''let b = 2;'']\<rparr>)"
    by (simp add: initial_state_def del: parse_loop.simps)
  from conjunct1 [OF conjunct2 [OF t [where st = initial_state and lines = "[''hello'', ''world'']"
        and h = "''snippet foo''" and hdr = ?hdr]]] i(2) unterminated_header b
  have "\<exists>info. parseSnippet (\<lambda>p. True) ''snippet foo'' [''hello'', ''world''] = Inr (info, []) \<and>
         parse_loop (\<lambda>p. True) (\<lambda>s. Priority 0) [''snippet foo'', ''hello'', ''world''] initial_state =
           Inr (initial_state\<lparr>snippetInfos := snippetInfos initial_state @
                     [info\<lparr>header := (header info)\<lparr>priority := Some (pending_priority initial_state)\<rparr>,
                            contextFilter := pending_context initial_state\<rparr>],
                   pending_priority := Priority 0,
                   pending_context := None\<rparr>)"
    by blast
  then have 2: "parse_loop (\<lambda>p. True) (\<lambda>s. Priority 0) [''snippet foo'', ''hello'', ''world''] initial_state =
     Inr (initial_state\<lparr>snippetInfos :=
       [\<lparr>body = join [LF] [FUNCTION_HEAD, LET_RV, LET_RESULT, LET_BLOCKRESULTS,
            push_text ''hello'', PUSH_NEWLINE, push_text ''world'', RETURN, ''}''],
         contextFilter = None,
         header = \<lparr>trigger = Literal ''foo'', description = [], flags = [],
                     priority = Some (Priority 0)\<rparr>\<rparr>]\<rparr>)"
    unfolding unterminated_body by (auto simp: initial_state_def)
  from conjunct1 [OF conjunct2 [OF conjunct2 [OF t [where content = "''global'' @ [LF] @ ''let a = 1;''"
        and g = "''global''" and lines = "[''let a = 1;'']" and executionFunction = ?accept]]]]
    unterminated_files(1) g(2,3)
  have "parse (\<lambda>p. True) (\<lambda>s. Priority 0) (\<lambda>n. Inl () :: unit + unit) ?accept
          (''global'' @ [LF] @ ''let a = 1;'') =
        (case ?accept (safeRequire (\<lambda>n. Inl () :: unit + unit))
                (join [LF] ([''let a = 1;''] @ [''return ['', '']''])) of
           Inl errorMessage \<Rightarrow>
             Inl (FailedToParseSnippetCode (''Failed to parse snippet code: '' @ enrich errorMessage))
         | Inr generators \<Rightarrow> Inr [])"
    by blast
  then have 3: "parse (\<lambda>p. True) (\<lambda>s. Priority 0) (\<lambda>n. Inl () :: unit + unit) ?accept
          (''global'' @ [LF] @ ''let a = 1;'') = Inr []"
    by simp
  from conjunct2 [OF conjunct2 [OF conjunct2 [OF t [where
        content = "''snippet foo'' @ [LF] @ ''hello'' @ [LF] @ ''world''" and h = "''snippet foo''"
        and lines = "[''hello'', ''world'']" and hdr = ?hdr and executionFunction = ?one]]]]
    unterminated_files(2) unterminated_header b
  have "\<exists>info. parseSnippet (\<lambda>p. True) ''snippet foo'' [''hello'', ''world''] = Inr (info, []) \<and>
         parse (\<lambda>p. True) (\<lambda>s. Priority 0) (\<lambda>n. Inl () :: unit + unit) ?one
           (''snippet foo'' @ [LF] @ ''hello'' @ [LF] @ ''world'') =
           (case ?one (safeRequire (\<lambda>n. Inl () :: unit + unit))
                   (join [LF] [''return ['', ''{'', ''generatorFunction: '' @ body info, ''},'', '']'']) of
              Inl errorMessage \<Rightarrow>
                Inl (FailedToParseSnippetCode (''Failed to parse snippet code: '' @ enrich errorMessage))
            | Inr generators \<Rightarrow>
                make_snippets 0 [info\<lparr>header := (header info)\<lparr>priority := Some (Priority 0)\<rparr>\<rparr>]
                  generators)"
    by blast
  then have 4: "parse (\<lambda>p. True) (\<lambda>s. Priority 0) (\<lambda>n. Inl () :: unit + unit) ?one
           (''snippet foo'' @ [LF] @ ''hello'' @ [LF] @ ''world'') =
     Inr [\<lparr>snippet_header = \<lparr>trigger = Literal ''foo'', description = [], flags = [],
                               priority = Some (Priority 0)\<rparr>,
           snippet_generatorFunction = (), snippet_contextFilter = None\<rparr>]"
    unfolding unterminated_body by auto
  from 1 2 3 4 show ?thesis by simp
qed

text \<open>
  C10 as stated fails at the file \<^verbatim>\<open>global\<close>, \<^verbatim>\<open>let a = 1;\<close>, \<^verbatim>\<open>snippet x\<close>,
  \<^verbatim>\<open>hello\<close>: the open block takes the declaration and its body into the preamble, the
  script to execute is \<^verbatim>\<open>let a = 1;\<close> \<^verbatim>\<open>snippet x\<close> \<^verbatim>\<open>hello\<close> \<^verbatim>\<open>return [\<close> \<^verbatim>\<open>]\<close>, the host
  rejects it (\<^verbatim>\<open>Unexpected identifier 'x'\<close>), and \<^verbatim>\<open>parse\<close> fails. And a body with no
  line that starts with \<^verbatim>\<open>endsnippet\<close> does not take every remaining line when
  \<^verbatim>\<open>endsnippet\<close> follows a closing delimiter: the line \<^verbatim>\<open>more\<close> is left.
\<close>

theorem C10_open_global_fails:
  "parse (\<lambda>p. True) (\<lambda>s. Priority 0) (\<lambda>n. Inl () :: unit + unit)
     (\<lambda>req s. if s = join [LF] [''let a = 1;'', ''snippet x'', ''hello'', ''return ['', '']'']
               then Inl (''Unexpected identifier '' @ [CHR 0x27] @ ''x'' @ [CHR 0x27])
               else Inr [] :: string + (unit, unit) parseResult list)
     (''global'' @ [LF] @ ''let a = 1;'' @ [LF] @ ''snippet x'' @ [LF] @ ''hello'') =
     Inl (FailedToParseSnippetCode
       (''Failed to parse snippet code: Unexpected identifier '' @ [CHR 0x27] @ ''x'' @ [CHR 0x27])) \<and>
   map_sum id snd (parseSnippet (\<lambda>p. True) ''snippet foo'' [''``rv = 1``endsnippet'', ''more'']) =
     Inr [''more'']"
  by code_simp

end
